theory Spec2Isabelle
  imports Complex_Main "HOL-Library.Char_ord" "HOL-Library.List_Lexorder" "HOL-Library.AList" "HOL-Library.Multiset"
begin

section \<open>Resilient writer (\<^verbatim>\<open>parquet_stac_utils.write_dataset_with_retry\<close>)\<close>





fun starts_with :: "string \<Rightarrow> string \<Rightarrow> bool" where
  "starts_with [] s = True"
| "starts_with (p # ps) [] = False"
| "starts_with (p # ps) (c # cs) = (p = c \<and> starts_with ps cs)"














subsection \<open>Write scripts used as concrete inputs\<close>







section \<open>Values read from a Parquet file (\<^verbatim>\<open>build_sar_catalog.py\<close>)\<close>

subsection \<open>Exceptions\<close>

text \<open>An exception raised by the catalog builder: its class and its message.\<close>

datatype error = Raised (err_class: string) (err_str: string)

definition ValueError :: "string \<Rightarrow> error" where
  "ValueError msg = Raised ''ValueError'' msg"

definition RuntimeError :: "string \<Rightarrow> error" where
  "RuntimeError msg = Raised ''RuntimeError'' msg"

definition TypeError :: "string \<Rightarrow> error" where
  "TypeError msg = Raised ''TypeError'' msg"

subsection \<open>Floats\<close>

text \<open>
  A coordinate is a Python float taken as the number it denotes: a real, or one of the
  two infinities that seed the reduction. Comparison, the only operation the builder
  applies to coordinates, is exact on floats. Not-a-number is not a coordinate and is
  left out of the type.
\<close>

datatype pyfloat = NegInf | Fin real | PosInf

instantiation pyfloat :: linorder
begin

fun less_eq_pyfloat :: "pyfloat \<Rightarrow> pyfloat \<Rightarrow> bool" where
  "less_eq_pyfloat NegInf b = True"
| "less_eq_pyfloat (Fin a) NegInf = False"
| "less_eq_pyfloat (Fin a) (Fin b) = (a \<le> b)"
| "less_eq_pyfloat (Fin a) PosInf = True"
| "less_eq_pyfloat PosInf PosInf = True"
| "less_eq_pyfloat PosInf b = False"

definition less_pyfloat :: "pyfloat \<Rightarrow> pyfloat \<Rightarrow> bool" where
  "less_pyfloat a b = (a \<le> b \<and> \<not> b \<le> a)"

instance
proof
  fix x y z :: pyfloat
  show "(x < y) = (x \<le> y \<and> \<not> y \<le> x)"
    by (simp add: less_pyfloat_def)
  show "x \<le> x"
    by (cases x) simp_all
  show "x \<le> y \<Longrightarrow> y \<le> z \<Longrightarrow> x \<le> z"
    by (cases x; cases y; cases z) simp_all
  show "x \<le> y \<Longrightarrow> y \<le> x \<Longrightarrow> x = y"
    by (cases x; cases y) simp_all
  show "x \<le> y \<or> y \<le> x"
    by (cases x; cases y) auto
qed

end

text \<open>Python's two-argument \<^verbatim>\<open>min(a, b)\<close> and \<^verbatim>\<open>max(a, b)\<close>: the first argument
  stays unless the second is strictly smaller (larger).\<close>

definition py_min2 :: "pyfloat \<Rightarrow> pyfloat \<Rightarrow> pyfloat" where
  "py_min2 a b = (if b < a then b else a)"

definition py_max2 :: "pyfloat \<Rightarrow> pyfloat \<Rightarrow> pyfloat" where
  "py_max2 a b = (if a < b then b else a)"

type_synonym bbox = "pyfloat \<times> pyfloat \<times> pyfloat \<times> pyfloat"

subsection \<open>Datetimes\<close>

text \<open>
  A \<^verbatim>\<open>datetime\<close> is the reading of its own clock, counted in microseconds from
  0001-01-01T00:00:00, and its \<^verbatim>\<open>tzinfo\<close>: \<open>None\<close> for a naive datetime, otherwise
  the offset from UTC in microseconds. The bounds \<^verbatim>\<open>datetime.min\<close> and
  \<^verbatim>\<open>datetime.max\<close> are not modelled.
\<close>

record datetime =
  wall :: int
  tzinfo :: "int option"

text \<open>A cell of a timestamp column as \<^verbatim>\<open>to_pylist\<close> returns it: a datetime, or
  \<^verbatim>\<open>None\<close> for a null.\<close>

datatype pyval = PyDatetime datetime | PyNone

text \<open>The instant by which two datetimes of one kind are ordered.\<close>

definition dt_key :: "datetime \<Rightarrow> int" where
  "dt_key d = (case tzinfo d of None \<Rightarrow> wall d | Some off \<Rightarrow> wall d - off)"

text \<open>Python's \<^verbatim>\<open>x < y\<close>: naive datetimes compare by their clock readings, aware ones by
  their UTC instants, and every other pair raises \<^verbatim>\<open>TypeError\<close>.\<close>

fun py_lt :: "pyval \<Rightarrow> pyval \<Rightarrow> error + bool" where
  "py_lt (PyDatetime a) (PyDatetime b) =
     (case (tzinfo a, tzinfo b) of
        (None, None) \<Rightarrow> Inr (wall a < wall b)
      | (Some oa, Some ob) \<Rightarrow> Inr (wall a - oa < wall b - ob)
      | _ \<Rightarrow> Inl (TypeError ''can't compare offset-naive and offset-aware datetimes''))"
| "py_lt x y = Inl (TypeError ''< not supported between instances'')"

text \<open>The builtin \<^verbatim>\<open>min\<close> on a list: the running minimum is replaced by an item that
  is strictly smaller.\<close>

fun min_from :: "pyval \<Rightarrow> pyval list \<Rightarrow> error + pyval" where
  "min_from cur [] = Inr cur"
| "min_from cur (x # xs) =
     (case py_lt x cur of
        Inl e \<Rightarrow> Inl e
      | Inr b \<Rightarrow> min_from (if b then x else cur) xs)"

definition py_min :: "pyval list \<Rightarrow> error + pyval" where
  "py_min xs =
     (case xs of
        [] \<Rightarrow> Inl (ValueError ''min() arg is an empty sequence'')
      | x # rest \<Rightarrow> min_from x rest)"

text \<open>The builtin \<^verbatim>\<open>max\<close>: replaced by an item that is strictly larger.\<close>

fun max_from :: "pyval \<Rightarrow> pyval list \<Rightarrow> error + pyval" where
  "max_from cur [] = Inr cur"
| "max_from cur (x # xs) =
     (case py_lt cur x of
        Inl e \<Rightarrow> Inl e
      | Inr b \<Rightarrow> max_from (if b then x else cur) xs)"

definition py_max :: "pyval list \<Rightarrow> error + pyval" where
  "py_max xs =
     (case xs of
        [] \<Rightarrow> Inl (ValueError ''max() arg is an empty sequence'')
      | x # rest \<Rightarrow> max_from x rest)"

text \<open>\<^verbatim>\<open>dt.replace(tzinfo=timezone.utc) if dt.tzinfo is None else dt.astimezone(timezone.utc)\<close>\<close>

definition to_utc :: "datetime \<Rightarrow> datetime" where
  "to_utc dt =
     (case tzinfo dt of
        None \<Rightarrow> dt\<lparr>tzinfo := Some 0\<rparr>
      | Some off \<Rightarrow> \<lparr>wall = wall dt - off, tzinfo = Some 0\<rparr>)"

text \<open>The guarded normalisation of \<^verbatim>\<open>_bbox_and_times\<close>: a value that is not a datetime
  passes unchanged.\<close>

definition normalize_utc :: "pyval \<Rightarrow> pyval" where
  "normalize_utc v = (case v of PyDatetime dt \<Rightarrow> PyDatetime (to_utc dt) | PyNone \<Rightarrow> PyNone)"

subsection \<open>Geometries\<close>

text \<open>A cell of the geometry column either decodes to a point or is refused by
  \<^verbatim>\<open>wkb.loads\<close>.\<close>

datatype wkb = WKB_Point pyfloat pyfloat | WKB_Malformed

datatype geometry = Point pyfloat pyfloat

definition wkb_loads :: "wkb \<Rightarrow> error + geometry" where
  "wkb_loads g =
     (case g of
        WKB_Point x y \<Rightarrow> Inr (Point x y)
      | WKB_Malformed \<Rightarrow> Inl (Raised ''WKBReadingError'' ''could not create geometry''))"

fun bounds :: "geometry \<Rightarrow> bbox" where
  "bounds (Point x y) = (x, y, x, y)"

subsection \<open>The file summarizer\<close>

record row =
  geometry :: wkb
  firstMeasurementTime :: pyval
  lastMeasurementTime :: pyval

text \<open>What is stored at a path: a Parquet table with the row count of its metadata, or
  bytes that \<^verbatim>\<open>pq.read_table\<close> refuses.\<close>

datatype file_content = Parquet "row list" nat | NotParquet

text \<open>The loop over \<^verbatim>\<open>geoms\<close>, with the running bounds.\<close>

fun bbox_loop :: "wkb list \<Rightarrow> bbox \<Rightarrow> error + bbox" where
  "bbox_loop [] acc = Inr acc"
| "bbox_loop (g # gs) (minx, miny, maxx, maxy) =
     (case wkb_loads g of
        Inl e \<Rightarrow> Inl e
      | Inr geom \<Rightarrow>
          (case bounds geom of
             (b0, b1, b2, b3) \<Rightarrow>
               bbox_loop gs (py_min2 minx b0, py_min2 miny b1, py_max2 maxx b2, py_max2 maxy b3)))"

type_synonym summary = "bbox \<times> pyval \<times> pyval \<times> nat"

definition bbox_and_times :: "string \<Rightarrow> file_content \<Rightarrow> error + summary" where
  "bbox_and_times parquet_path content =
     (case content of
        NotParquet \<Rightarrow> Inl (Raised ''ArrowInvalid'' ''Parquet magic bytes not found'')
      | Parquet rows num_rows \<Rightarrow>
          (let geoms = map geometry rows;
               first_times = map firstMeasurementTime rows;
               last_times = map lastMeasurementTime rows
           in if geoms = [] then Inl (ValueError (''No geometry column in '' @ parquet_path))
              else
                (case bbox_loop geoms (PosInf, PosInf, NegInf, NegInf) of
                   Inl e \<Rightarrow> Inl e
                 | Inr bb \<Rightarrow>
                     (case py_min first_times of
                        Inl e \<Rightarrow> Inl e
                      | Inr start \<Rightarrow>
                          (case py_max last_times of
                             Inl e \<Rightarrow> Inl e
                           | Inr end_time \<Rightarrow>
                               Inr (bb, normalize_utc start, normalize_utc end_time, num_rows))))))"


subsection \<open>Well-formed timestamp columns\<close>

text \<open>
  A timestamp column of a Parquet file has one type: its cells are all naive datetimes
  or all aware ones. The key of a cell is the instant by which Python orders it.
\<close>

fun is_naive :: "pyval \<Rightarrow> bool" where
  "is_naive (PyDatetime d) = (tzinfo d = None)"
| "is_naive PyNone = False"

fun is_aware :: "pyval \<Rightarrow> bool" where
  "is_aware (PyDatetime d) = (tzinfo d \<noteq> None)"
| "is_aware PyNone = False"

definition uniform_column :: "pyval list \<Rightarrow> bool" where
  "uniform_column xs = (list_all is_naive xs \<or> list_all is_aware xs)"

fun pv_key :: "pyval \<Rightarrow> int" where
  "pv_key (PyDatetime d) = dt_key d"
| "pv_key PyNone = 0"

text \<open>The cell of a point.\<close>

fun wkb_point :: "pyfloat \<times> pyfloat \<Rightarrow> wkb" where
  "wkb_point (x, y) = WKB_Point x y"


subsection \<open>Calendar and \<^verbatim>\<open>isoformat\<close>\<close>

text \<open>
  \<^verbatim>\<open>datetime.isoformat\<close> belongs to the standard library. It is written out here, after
  the library's own day-number arithmetic, so that serialized values can be computed.
\<close>

definition is_leap :: "int \<Rightarrow> bool" where
  "is_leap y = (y mod 4 = 0 \<and> (y mod 100 \<noteq> 0 \<or> y mod 400 = 0))"

definition days_in_month :: "int \<Rightarrow> int \<Rightarrow> int" where
  "days_in_month y m =
     (if m = 2 then (if is_leap y then 29 else 28)
      else if m = 4 \<or> m = 6 \<or> m = 9 \<or> m = 11 then 30 else 31)"

definition days_before_year :: "int \<Rightarrow> int" where
  "days_before_year y = (y - 1) * 365 + (y - 1) div 4 - (y - 1) div 100 + (y - 1) div 400"

definition days_before_month :: "int \<Rightarrow> int \<Rightarrow> int" where
  "days_before_month y m = sum_list (map (days_in_month y) [1..m - 1])"

definition ymd2ord :: "int \<Rightarrow> int \<Rightarrow> int \<Rightarrow> int" where
  "ymd2ord y m d = days_before_year y + days_before_month y m + d"

definition ord2ymd :: "int \<Rightarrow> int \<times> int \<times> int" where
  "ord2ymd ordinal =
     (let n = ordinal - 1;
          n400 = n div 146097; r400 = n mod 146097;
          n100 = r400 div 36524; r100 = r400 mod 36524;
          n4 = r100 div 1461; r4 = r100 mod 1461;
          n1 = r4 div 365; r1 = r4 mod 365;
          year = n400 * 400 + 1 + n100 * 100 + n4 * 4 + n1
      in if n1 = 4 \<or> n100 = 4 then (year - 1, 12, 31)
         else
           (let leapyear = (n1 = 3 \<and> (n4 \<noteq> 24 \<or> n100 = 3));
                month = (r1 + 50) div 32;
                preceding = days_before_month 1 month + (if month > 2 \<and> leapyear then 1 else 0)
            in if preceding > r1 then
                 (year, month - 1,
                  r1 - (preceding - (days_in_month 1 (month - 1)
                                      + (if month - 1 = 2 \<and> leapyear then 1 else 0))) + 1)
               else (year, month, r1 - preceding + 1)))"

text \<open>A non-negative number in exactly \<open>w\<close> decimal digits (\<^verbatim>\<open>%0wd\<close> for a number that
  fits, as every field of a datetime does).\<close>

fun pad_dec :: "nat \<Rightarrow> nat \<Rightarrow> string" where
  "pad_dec 0 n = []"
| "pad_dec (Suc w) n = pad_dec w (n div 10) @ [char_of (48 + n mod 10)]"

definition DAY_US :: int where
  "DAY_US = 86400000000"

text \<open>Date and time of a clock reading: \<^verbatim>\<open>YYYY-MM-DDTHH:MM:SS\<close>, then the microseconds
  when they are not zero.\<close>

definition iso_local :: "int \<Rightarrow> string" where
  "iso_local w =
     (let us = w mod DAY_US;
          f = us mod 1000000
      in case ord2ymd (w div DAY_US + 1) of
           (y, m, d) \<Rightarrow>
             pad_dec 4 (nat y) @ ''-'' @ pad_dec 2 (nat m) @ ''-'' @ pad_dec 2 (nat d) @ ''T''
             @ pad_dec 2 (nat (us div 3600000000)) @ '':''
             @ pad_dec 2 (nat (us div 60000000 mod 60)) @ '':''
             @ pad_dec 2 (nat (us div 1000000 mod 60))
             @ (if f = 0 then [] else ''.'' @ pad_dec 6 (nat f)))"

definition format_offset :: "int \<Rightarrow> string" where
  "format_offset off =
     (let a = \<bar>off\<bar>;
          rest = a mod 60000000
      in (if off < 0 then ''-'' else ''+'')
         @ pad_dec 2 (nat (a div 3600000000)) @ '':'' @ pad_dec 2 (nat (a div 60000000 mod 60))
         @ (if rest = 0 then []
            else '':'' @ pad_dec 2 (nat (rest div 1000000))
                 @ (if rest mod 1000000 = 0 then [] else ''.'' @ pad_dec 6 (nat (rest mod 1000000)))))"

definition isoformat :: "datetime \<Rightarrow> string" where
  "isoformat dt =
     iso_local (wall dt) @ (case tzinfo dt of None \<Rightarrow> [] | Some off \<Rightarrow> format_offset off)"

text \<open>\<^verbatim>\<open>s.endswith(suffix)\<close>\<close>

definition ends_with :: "string \<Rightarrow> string \<Rightarrow> bool" where
  "ends_with suffix s = starts_with (rev suffix) (rev s)"

text \<open>\<^verbatim>\<open>_to_rfc3339_z\<close>: the slice \<^verbatim>\<open>s[:-6]\<close> drops the last six characters.\<close>

definition to_rfc3339_z :: "pyval \<Rightarrow> error + string" where
  "to_rfc3339_z v =
     (case v of
        PyDatetime dt \<Rightarrow>
          (let s = isoformat (to_utc dt)
           in Inr (if ends_with ''+00:00'' s then take (length s - 6) s @ ''Z''
                   else if ends_with ''Z'' s then s else s @ ''Z''))
      | PyNone \<Rightarrow> Inl (TypeError ''_to_rfc3339_z expects a datetime instance''))"

text \<open>A UTC datetime given by its calendar fields.\<close>

definition utc_datetime :: "int \<Rightarrow> int \<Rightarrow> int \<Rightarrow> int \<Rightarrow> int \<Rightarrow> int \<Rightarrow> datetime" where
  "utc_datetime y m d hh mm ss =
     \<lparr>wall = ((ymd2ord y m d - 1) * 86400 + hh * 3600 + mm * 60 + ss) * 1000000,
      tzinfo = Some 0\<rparr>"


section \<open>The catalog builder (\<^verbatim>\<open>build_sar_catalog.build_catalog\<close>)\<close>

subsection \<open>Paths\<close>

text \<open>A \<^verbatim>\<open>Path\<close> is the list of its parts; an absolute path starts with the part
  \<^verbatim>\<open>/\<close>. Paths are ordered as Python orders them, part by part.\<close>

type_synonym path = "string list"

fun join :: "string \<Rightarrow> string list \<Rightarrow> string" where
  "join sep [] = []"
| "join sep [x] = x"
| "join sep (x # y # zs) = x @ sep @ join sep (y # zs)"

definition path_str :: "path \<Rightarrow> string" where
  "path_str p =
     (case p of
        [] \<Rightarrow> ''.''
      | a # rest \<Rightarrow> if a = ''/'' then ''/'' @ join ''/'' rest else join ''/'' p)"

definition path_name :: "path \<Rightarrow> string" where
  "path_name p = (if p = [] then [] else last p)"

text \<open>\<^verbatim>\<open>s.rfind(c)\<close>: the highest index of \<open>c\<close>, or \<open>-1\<close>.\<close>

definition rfind :: "char \<Rightarrow> string \<Rightarrow> int" where
  "rfind c s =
     (if c \<in> set s then int (length s) - 1 - int (length (takeWhile (\<lambda>x. x \<noteq> c) (rev s)))
      else - 1)"

text \<open>\<^verbatim>\<open>PurePath.stem\<close>: the name without its last suffix.\<close>

definition stem :: "path \<Rightarrow> string" where
  "stem p =
     (let name = path_name p;
          i = rfind CHR ''.'' name
      in if 0 < i \<and> i < int (length name) - 1 then take (nat i) name else name)"

text \<open>
  The directory \<^verbatim>\<open>assets\<close> is given by its entries at any depth, each with its path
  relative to \<^verbatim>\<open>assets\<close> and its content, in the order the file system lists them.
  \<^verbatim>\<open>rglob("*.parquet")\<close> keeps the entries whose name ends in \<^verbatim>\<open>.parquet\<close>.
\<close>

type_synonym assets_tree = "(path \<times> file_content) list"

definition rglob_parquet :: "assets_tree \<Rightarrow> assets_tree" where
  "rglob_parquet tree = filter (\<lambda>(p, c). p \<noteq> [] \<and> ends_with ''.parquet'' (last p)) tree"

subsection \<open>STAC records\<close>

datatype json =
  JString string | JNumber int | JBool bool | JNull
| JArray "json list" | JObject "(string \<times> json) list"

type_synonym props = "(string \<times> json) list"

record column =
  col_name :: string
  col_description :: string
  col_type :: string

definition COLUMN_DEFS :: "column list" where
  "COLUMN_DEFS =
    [\<lparr>col_name = ''rowid'', col_description = ''Unique row identifier'', col_type = ''integer''\<rparr>,
     \<lparr>col_name = ''firstMeasurementTime'',
      col_description = ''Time of the first measurement (UTC)'', col_type = ''datetime''\<rparr>,
     \<lparr>col_name = ''lastMeasurementTime'',
      col_description = ''Time of the last measurement (UTC)'', col_type = ''datetime''\<rparr>,
     \<lparr>col_name = ''owiLon'',
      col_description = ''Longitude of the pixel center (degrees East)'', col_type = ''number''\<rparr>,
     \<lparr>col_name = ''owiLat'',
      col_description = ''Latitude of the pixel center (degrees North)'', col_type = ''number''\<rparr>,
     \<lparr>col_name = ''owiWindSpeed'',
      col_description = ''Surface wind speed (m/s)'', col_type = ''number''\<rparr>,
     \<lparr>col_name = ''owiWindDirection'',
      col_description = ''Direction of the surface wind vector (degrees clockwise from North)'',
      col_type = ''number''\<rparr>,
     \<lparr>col_name = ''owiMask'', col_description = ''Wind field mask'', col_type = ''number''\<rparr>,
     \<lparr>col_name = ''owiInversionQuality'',
      col_description = ''Wind inversion quality index'', col_type = ''number''\<rparr>,
     \<lparr>col_name = ''owiHeading'',
      col_description = ''Satellite heading (degrees clockwise from North)'', col_type = ''number''\<rparr>,
     \<lparr>col_name = ''owiWindQuality'',
      col_description = ''Wind quality flag'', col_type = ''number''\<rparr>,
     \<lparr>col_name = ''owiRadVel'',
      col_description = ''Radial wind velocity (m/s)'', col_type = ''number''\<rparr>,
     \<lparr>col_name = ''date'',
      col_description = ''Date of the observation (UTC)'', col_type = ''date''\<rparr>,
     \<lparr>col_name = ''geometry'',
      col_description = ''Point geometry of the observation in WGS84 encoded as WKB'',
      col_type = ''binary''\<rparr>]"

record asset =
  href :: string
  media_type :: string
  roles :: "string list"

record item =
  item_id :: string
  item_geometry :: "(pyfloat \<times> pyfloat) list"
  item_bbox :: "pyfloat list"
  item_datetime :: pyval
  item_properties :: props
  item_assets :: "(string \<times> asset) list"
  item_columns :: "column list"
  item_primary_geometry :: string
  item_row_count :: nat
  item_collection :: "string option"
  item_self_href :: "string option"

record table =
  table_name :: string
  table_description :: string
  table_columns :: "column list"
  table_row_count :: nat

record collection =
  coll_id :: string
  coll_description :: string
  coll_spatial_extent :: "pyfloat list list"
  coll_temporal_extent :: "(pyval \<times> pyval) list"
  coll_extra_fields :: props
  coll_tables :: "table list"
  coll_items :: "item list"
  coll_self_href :: "string option"

definition DESCRIPTION :: string where
  "DESCRIPTION = ''Synthetic Aperture Radar wind vectors for HF-EOLUS Project area of interest (NW Iberian Peninsula and S Bay of Biscay) derived from Copernicus Sentinel-1 Level-2 OCN OWI products, processed into a GeoParquet dataset. The dataset contains wind speed, direction, and quality flag at approximately 10 m above sea level, along with satellite metadata. Data is provided in daily files covering the period from November 2020 to February 2023. Each file contains point geometries in WGS84 (EPSG:4326) with associated attributes.''"

text \<open>\<^verbatim>\<open>list(bbox)\<close>\<close>

fun list_of_bbox :: "bbox \<Rightarrow> pyfloat list" where
  "list_of_bbox (minx, miny, maxx, maxy) = [minx, miny, maxx, maxy]"

text \<open>\<^verbatim>\<open>mapping(box(minx, miny, maxx, maxy))\<close>: the ring of the rectangle, counter-clockwise
  from the lower right corner.\<close>

fun box_ring :: "bbox \<Rightarrow> (pyfloat \<times> pyfloat) list" where
  "box_ring (minx, miny, maxx, maxy) =
     [(maxx, miny), (maxx, maxy), (minx, maxy), (minx, miny), (maxx, miny)]"

subsection \<open>Validation, effects and storage\<close>

text \<open>
  Schema validation is external. A failure is the exception it raises: its class, its
  text, the sub-errors when the exception has an \<^verbatim>\<open>errors\<close> attribute, and the lines
  of the traceback. The two validators are parameters of the builder.
\<close>

record validation_error =
  ve_class :: string
  ve_str :: string
  ve_errors :: "string list option"
  ve_traceback :: "string list"

record validators =
  validate_item :: "item \<Rightarrow> validation_error option"
  validate_collection :: "collection \<Rightarrow> validation_error option"

datatype document = ItemDoc item | CollectionDoc collection

text \<open>What a run does to the world, in order. \<^verbatim>\<open>PyarrowS3IO.write_text\<close> sends a document
  to S3 when its href starts with \<^verbatim>\<open>s3://\<close> and to the local file system otherwise.\<close>

datatype effect =
  Mkdir string
| SetDefaultStacIO string
| Print string
| WriteS3 string document
| WriteLocal string document

definition write_text :: "string \<Rightarrow> document \<Rightarrow> effect" where
  "write_text h doc = (if starts_with ''s3://'' h then WriteS3 (drop 5 h) doc else WriteLocal h doc)"

fun is_write :: "effect \<Rightarrow> bool" where
  "is_write (WriteS3 h d) = True"
| "is_write (WriteLocal h d) = True"
| "is_write e = False"

text \<open>The diagnostic line: the parts joined by \<^verbatim>\<open>" | "\<close>.\<close>

definition diagnostic :: "string \<Rightarrow> validation_error \<Rightarrow> string" where
  "diagnostic headline e =
     join '' | '' ([headline @ ve_str e]
                   @ (case ve_errors e of None \<Rightarrow> [] | Some errs \<Rightarrow> errs)
                   @ ve_traceback e)"

subsection \<open>The loop over the files\<close>

text \<open>The local variables the loop updates.\<close>

record loop_state =
  items :: "item list"
  overall_bbox :: "bbox option"
  start_times :: "pyval list"
  end_times :: "pyval list"
  total_rows :: nat

definition init_state :: loop_state where
  "init_state = \<lparr>items = [], overall_bbox = None, start_times = [], end_times = [], total_rows = 0\<rparr>"

text \<open>The item of one file, before validation.\<close>

definition make_item :: "path \<Rightarrow> props \<Rightarrow> bbox \<Rightarrow> pyval \<Rightarrow> string \<Rightarrow> string \<Rightarrow> nat \<Rightarrow> item" where
  "make_item rel item_props bb start start_s end_s row_count =
     \<lparr>item_id = stem rel,
      item_geometry = box_ring bb,
      item_bbox = list_of_bbox bb,
      item_datetime = start,
      item_properties =
        AList.update ''end_datetime'' (JString end_s)
          (AList.update ''start_datetime'' (JString start_s) item_props),
      item_assets =
        [(''data'', \<lparr>href = path_str (''assets'' # rel),
                     media_type = ''application/x-parquet'', roles = [''data'']\<rparr>)],
      item_columns = COLUMN_DEFS,
      item_primary_geometry = ''geometry'',
      item_row_count = row_count,
      item_collection = None,
      item_self_href = None\<rparr>"

text \<open>The merge of the running bounding box with the box of one file.\<close>

fun merge_bbox :: "bbox option \<Rightarrow> bbox \<Rightarrow> bbox" where
  "merge_bbox None bb = bb"
| "merge_bbox (Some (o0, o1, o2, o3)) (b0, b1, b2, b3) =
     (py_min2 o0 b0, py_min2 o1 b1, py_max2 o2 b2, py_max2 o3 b3)"

text \<open>The end of the loop body: the item is appended and the running values are
  updated.\<close>

definition accumulate :: "loop_state \<Rightarrow> item \<Rightarrow> bbox \<Rightarrow> pyval \<Rightarrow> pyval \<Rightarrow> nat \<Rightarrow> loop_state" where
  "accumulate st it bb start end_time row_count =
     \<lparr>items = items st @ [it],
      overall_bbox = Some (merge_bbox (overall_bbox st) bb),
      start_times = start_times st @ [start],
      end_times = end_times st @ [end_time],
      total_rows = total_rows st + row_count\<rparr>"

text \<open>
  The \<^verbatim>\<open>for\<close> loop, run on the files that remain from the state \<open>st\<close>, with the
  effects so far. An exception leaves the loop at once.
\<close>

fun build_items ::
  "validators \<Rightarrow> path \<Rightarrow> props \<Rightarrow> assets_tree \<Rightarrow> loop_state \<Rightarrow> effect list
     \<Rightarrow> (error + loop_state) \<times> effect list" where
  "build_items v root_dir item_props [] st tr = (Inr st, tr)"
| "build_items v root_dir item_props ((rel, content) # files) st tr =
     (case bbox_and_times (path_str (root_dir @ ''assets'' # rel)) content of
        Inl e \<Rightarrow> (Inl e, tr)
      | Inr (bb, start, end_time, row_count) \<Rightarrow>
          (case to_rfc3339_z start of
             Inl e \<Rightarrow> (Inl e, tr)
           | Inr start_s \<Rightarrow>
               (case to_rfc3339_z end_time of
                  Inl e \<Rightarrow> (Inl e, tr)
                | Inr end_s \<Rightarrow>
                    (let it = make_item rel item_props bb start start_s end_s row_count
                     in case validate_item v it of
                          Some e \<Rightarrow>
                            (Inl (Raised (ve_class e)
                                    (''Validation failed for STAC item '' @ [CHR 0x27] @ item_id it
                                     @ [CHR 0x27] @ '': '' @ ve_str e)),
                             tr @ [Print (diagnostic
                                     (''ERROR: Item validation failed for item ID '' @ item_id it @ '': '')
                                     e)])
                        | None \<Rightarrow>
                            build_items v root_dir item_props files
                              (accumulate st it bb start end_time row_count) tr))))"

subsection \<open>Collection, layout, persistence and the second validation\<close>

text \<open>\<^verbatim>\<open>collection.add_item\<close> records the collection in the item;
  \<^verbatim>\<open>normalize_hrefs\<close> with the layout of the builder gives every record its href.\<close>

definition add_item :: "string \<Rightarrow> item \<Rightarrow> item" where
  "add_item collection_id it = it\<lparr>item_collection := Some collection_id\<rparr>"

definition item_href :: "path \<Rightarrow> item \<Rightarrow> string" where
  "item_href root_dir it = path_str (root_dir @ [''items'', item_id it @ ''.json''])"

definition normalize_hrefs :: "path \<Rightarrow> collection \<Rightarrow> collection" where
  "normalize_hrefs root_dir c =
     c\<lparr>coll_self_href := Some (path_str (root_dir @ [''collection.json''])),
       coll_items := map (\<lambda>it. it\<lparr>item_self_href := Some (item_href root_dir it)\<rparr>) (coll_items c)\<rparr>"

text \<open>\<^verbatim>\<open>collection.save\<close>: every item document, then the collection document.\<close>

definition save :: "path \<Rightarrow> collection \<Rightarrow> effect list" where
  "save root_dir c =
     map (\<lambda>it. write_text (item_href root_dir it) (ItemDoc it)) (coll_items c)
     @ [write_text (path_str (root_dir @ [''collection.json''])) (CollectionDoc c)]"

text \<open>The first failure of the second validation: the collection, then its items.\<close>

fun first_failure :: "validation_error option list \<Rightarrow> validation_error option" where
  "first_failure [] = None"
| "first_failure (None # rs) = first_failure rs"
| "first_failure (Some e # rs) = Some e"

definition post_validate :: "validators \<Rightarrow> collection \<Rightarrow> validation_error option" where
  "post_validate v c = first_failure (validate_collection v c # map (validate_item v) (coll_items c))"

text \<open>The builder once the files are enumerated: the loop and everything after it.\<close>

definition build_from ::
  "validators \<Rightarrow> path \<Rightarrow> string \<Rightarrow> props \<Rightarrow> props \<Rightarrow> assets_tree \<Rightarrow> effect list
     \<Rightarrow> (error + collection) \<times> effect list" where
  "build_from v root_dir collection_id item_props collection_props files tr0 =
     (case build_items v root_dir item_props files init_state tr0 of
        (Inl e, tr) \<Rightarrow> (Inl e, tr)
      | (Inr st, tr) \<Rightarrow>
          (case overall_bbox st of
             None \<Rightarrow> (Inl (RuntimeError ''No Parquet files found under assets directory''), tr)
           | Some ob \<Rightarrow>
               (case py_min (start_times st) of
                  Inl e \<Rightarrow> (Inl e, tr)
                | Inr tmin \<Rightarrow>
                    (case py_max (end_times st) of
                       Inl e \<Rightarrow> (Inl e, tr)
                     | Inr tmax \<Rightarrow>
                         (let c = normalize_hrefs root_dir
                                \<lparr>coll_id = collection_id,
                                 coll_description = DESCRIPTION,
                                 coll_spatial_extent = [list_of_bbox ob],
                                 coll_temporal_extent = [(tmin, tmax)],
                                 coll_extra_fields = collection_props,
                                 coll_tables =
                                   [\<lparr>table_name = ''owi'',
                                     table_description = ''Sentinel-1 Ocean Wind Field measurements'',
                                     table_columns = COLUMN_DEFS,
                                     table_row_count = total_rows st\<rparr>],
                                 coll_items = map (add_item collection_id) (items st),
                                 coll_self_href = None\<rparr>;
                              tr1 = tr @ save root_dir c
                          in case post_validate v c of
                               Some e \<Rightarrow>
                                 (Inl (Raised (ve_class e)
                                         (''Validation failed after saving STAC catalog for ''
                                          @ [CHR 0x27] @ collection_id @ [CHR 0x27] @ '': '' @ ve_str e)),
                                  tr1 @ [Print (diagnostic
                                           (''ERROR: Post-save validation failed for collection ''
                                            @ [CHR 0x27] @ collection_id @ [CHR 0x27] @ '': '')
                                           e)])
                             | None \<Rightarrow> (Inr c, tr1))))))"

text \<open>
  \<^verbatim>\<open>build_catalog\<close>. The two property overlays are the contents of the JSON files when
  their paths are given. The files are taken in the sorted order of their paths.
\<close>

definition build_catalog ::
  "validators \<Rightarrow> path \<Rightarrow> string \<Rightarrow> props option \<Rightarrow> props option \<Rightarrow> assets_tree
     \<Rightarrow> (error + collection) \<times> effect list" where
  "build_catalog v root_dir collection_id item_props_file collection_props_file tree =
     build_from v root_dir collection_id
       (case item_props_file of None \<Rightarrow> [] | Some p \<Rightarrow> p)
       (case collection_props_file of None \<Rightarrow> [] | Some p \<Rightarrow> p)
       (sort_key fst (rglob_parquet tree))
       [Mkdir (path_str (root_dir @ [''items''])), SetDefaultStacIO ''PyarrowS3IO'']"


subsection \<open>Summaries and the items built from them\<close>

text \<open>The summary of one enumerated file, and the parts of a summary.\<close>

definition summarize :: "path \<Rightarrow> path \<times> file_content \<Rightarrow> error + summary" where
  "summarize root_dir f = bbox_and_times (path_str (root_dir @ ''assets'' # fst f)) (snd f)"

fun s_bbox :: "summary \<Rightarrow> bbox" where
  "s_bbox (bb, start, end_time, row_count) = bb"

fun s_start :: "summary \<Rightarrow> pyval" where
  "s_start (bb, start, end_time, row_count) = start"

fun s_end :: "summary \<Rightarrow> pyval" where
  "s_end (bb, start, end_time, row_count) = end_time"

fun s_rows :: "summary \<Rightarrow> nat" where
  "s_rows (bb, start, end_time, row_count) = row_count"

fun bb_minx :: "bbox \<Rightarrow> pyfloat" where
  "bb_minx (minx, miny, maxx, maxy) = minx"

fun bb_miny :: "bbox \<Rightarrow> pyfloat" where
  "bb_miny (minx, miny, maxx, maxy) = miny"

fun bb_maxx :: "bbox \<Rightarrow> pyfloat" where
  "bb_maxx (minx, miny, maxx, maxy) = maxx"

fun bb_maxy :: "bbox \<Rightarrow> pyfloat" where
  "bb_maxy (minx, miny, maxx, maxy) = maxy"

text \<open>The string \<^verbatim>\<open>_to_rfc3339_z\<close> returns, empty when it raises.\<close>

definition rfc_str :: "pyval \<Rightarrow> string" where
  "rfc_str v = (case to_rfc3339_z v of Inl e \<Rightarrow> [] | Inr s \<Rightarrow> s)"

text \<open>The item the loop builds for a file with a given summary.\<close>

definition the_item :: "props \<Rightarrow> path \<times> file_content \<Rightarrow> summary \<Rightarrow> item" where
  "the_item item_props f s =
     make_item (fst f) item_props (s_bbox s) (s_start s)
       (rfc_str (s_start s)) (rfc_str (s_end s)) (s_rows s)"

text \<open>The state after the loop has run over files with the given summaries.\<close>

fun run_state :: "props \<Rightarrow> (path \<times> file_content) list \<Rightarrow> summary list \<Rightarrow> loop_state \<Rightarrow> loop_state" where
  "run_state item_props (f # fs) (s # ss) st =
     run_state item_props fs ss
       (accumulate st (the_item item_props f s) (s_bbox s) (s_start s) (s_end s) (s_rows s))"
| "run_state item_props fs ss st = st"

fun is_datetime :: "pyval \<Rightarrow> bool" where
  "is_datetime (PyDatetime d) = True"
| "is_datetime PyNone = False"

text \<open>The collection in closed form, for enumerated files with the given summaries.\<close>

definition collection_of ::
  "path \<Rightarrow> string \<Rightarrow> props \<Rightarrow> props \<Rightarrow> assets_tree \<Rightarrow> summary list \<Rightarrow> collection" where
  "collection_of root_dir collection_id item_props collection_props files sms =
     normalize_hrefs root_dir
       \<lparr>coll_id = collection_id,
        coll_description = DESCRIPTION,
        coll_spatial_extent =
          [[Min (bb_minx ` s_bbox ` set sms), Min (bb_miny ` s_bbox ` set sms),
            Max (bb_maxx ` s_bbox ` set sms), Max (bb_maxy ` s_bbox ` set sms)]],
        coll_temporal_extent =
          [(PyDatetime \<lparr>wall = Min (pv_key ` s_start ` set sms), tzinfo = Some 0\<rparr>,
            PyDatetime \<lparr>wall = Max (pv_key ` s_end ` set sms), tzinfo = Some 0\<rparr>)],
        coll_extra_fields = collection_props,
        coll_tables =
          [\<lparr>table_name = ''owi'',
            table_description = ''Sentinel-1 Ocean Wind Field measurements'',
            table_columns = COLUMN_DEFS,
            table_row_count = sum_list (map s_rows sms)\<rparr>],
        coll_items = map (add_item collection_id) (map2 (the_item item_props) files sms),
        coll_self_href = None\<rparr>"

text \<open>The item identifiers of the collection a run returns, or its error.\<close>

definition item_ids :: "(error + collection) \<times> effect list \<Rightarrow> error + string list" where
  "item_ids run = (case fst run of Inl e \<Rightarrow> Inl e | Inr c \<Rightarrow> Inr (map item_id (coll_items c)))"


section \<open>Concrete inputs\<close>

text \<open>Validators that accept every record.\<close>

definition accept_all :: validators where
  "accept_all = \<lparr>validate_item = (\<lambda>it. None), validate_collection = (\<lambda>c. None)\<rparr>"

text \<open>One observation: a point and its two timestamps.\<close>

definition obs :: "real \<Rightarrow> real \<Rightarrow> datetime \<Rightarrow> datetime \<Rightarrow> row" where
  "obs x y t1 t2 = \<lparr>geometry = WKB_Point (Fin x) (Fin y),
     firstMeasurementTime = PyDatetime t1, lastMeasurementTime = PyDatetime t2\<rparr>"

text \<open>The two files of the end-to-end example: three rows within
  \<open>[-10, 40, -9, 41]\<close> on 2021-01-01 and five rows within \<open>[-9, 41, -8, 42]\<close> on
  2021-01-02, both between 00:00 and 01:00 UTC.\<close>

definition rows_a :: "row list" where
  "rows_a =
     [obs (-9) 41 (utc_datetime 2021 1 1 0 40 0) (utc_datetime 2021 1 1 1 0 0),
      obs (-10) 40 (utc_datetime 2021 1 1 0 0 0) (utc_datetime 2021 1 1 0 20 0),
      obs (-19/2) (81/2) (utc_datetime 2021 1 1 0 20 0) (utc_datetime 2021 1 1 0 40 0)]"

definition rows_b :: "row list" where
  "rows_b =
     [obs (-9) 41 (utc_datetime 2021 1 2 0 0 0) (utc_datetime 2021 1 2 0 10 0),
      obs (-8) 42 (utc_datetime 2021 1 2 0 10 0) (utc_datetime 2021 1 2 0 20 0),
      obs (-17/2) (83/2) (utc_datetime 2021 1 2 0 20 0) (utc_datetime 2021 1 2 0 30 0),
      obs (-17/2) 41 (utc_datetime 2021 1 2 0 30 0) (utc_datetime 2021 1 2 1 0 0),
      obs (-9) 42 (utc_datetime 2021 1 2 0 40 0) (utc_datetime 2021 1 2 0 50 0)]"

definition two_files :: assets_tree where
  "two_files =
     [([''b.parquet''], Parquet rows_b 5), ([''README.md''], NotParquet),
      ([''a.parquet''], Parquet rows_a 3)]"


text \<open>A tree with no Parquet file.\<close>

definition no_parquet_tree :: assets_tree where
  "no_parquet_tree = [([''README.md''], NotParquet), ([''2021'', ''notes.txt''], NotParquet)]"

text \<open>The summaries of the two example files.\<close>

definition summary_a :: summary where
  "summary_a = ((Fin (-10), Fin 40, Fin (-9), Fin 41),
     PyDatetime (utc_datetime 2021 1 1 0 0 0), PyDatetime (utc_datetime 2021 1 1 1 0 0), 3)"

definition summary_b :: summary where
  "summary_b = ((Fin (-9), Fin 41, Fin (-8), Fin 42),
     PyDatetime (utc_datetime 2021 1 2 0 0 0), PyDatetime (utc_datetime 2021 1 2 1 0 0), 5)"

text \<open>A tree in which a file without rows sorts between two good files.\<close>

definition tree_with_empty_file :: assets_tree where
  "tree_with_empty_file =
     [([''z.parquet''], Parquet rows_b 5), ([''empty.parquet''], Parquet [] 0),
      ([''a.parquet''], Parquet rows_a 3)]"

text \<open>Two files of the same name in two subdirectories.\<close>

definition same_name_tree :: assets_tree where
  "same_name_tree =
     [([''2022'', ''x.parquet''], Parquet rows_b 5), ([''2021'', ''x.parquet''], Parquet rows_a 3)]"



section \<open>Properties of the resilient writer\<close>










section \<open>Properties of the file summarizer\<close>

lemma pyfloat_le_PosInf [simp]: "a \<le> PosInf"
  by (cases a) simp_all

lemma pyfloat_NegInf_le [simp]: "NegInf \<le> a"
  by simp

lemma py_min2_min: "py_min2 a b = min a b"
  by (auto simp: py_min2_def min_def)

lemma py_max2_max: "py_max2 a b = max a b"
  by (auto simp: py_max2_def max_def)


lemma bbox_loop_Inr_points:
  "bbox_loop gs acc = Inr r \<Longrightarrow> \<exists>pts. gs = map wkb_point pts"
proof (induction gs arbitrary: acc)
  case Nil
  show ?case by simp
next
  case (Cons g gs)
  obtain a b c d where acc: "acc = (a, b, c, d)" by (cases acc)
  show ?case
  proof (cases g)
    case (WKB_Point x y)
    with Cons.prems acc obtain acc' where "bbox_loop gs acc' = Inr r"
      by (auto simp: wkb_loads_def)
    from Cons.IH[OF this] obtain pts where "gs = map wkb_point pts" ..
    with WKB_Point have "g # gs = map wkb_point ((x, y) # pts)" by simp
    then show ?thesis ..
  next
    case WKB_Malformed
    with Cons.prems acc show ?thesis by (simp add: wkb_loads_def)
  qed
qed




lemma py_lt_uniform:
  assumes "(is_naive x \<and> is_naive y) \<or> (is_aware x \<and> is_aware y)"
  shows "py_lt x y = Inr (pv_key x < pv_key y)"
  using assms by (cases x; cases y) (auto simp: dt_key_def)

lemma min_from_uniform:
  assumes "uniform_column (c # xs)"
  shows "\<exists>m. min_from c xs = Inr m \<and> m \<in> set (c # xs)
             \<and> pv_key m = Min (pv_key ` set (c # xs))"
  using assms
proof (induction xs arbitrary: c)
  case Nil
  show ?case by simp
next
  case (Cons x xs)
  let ?c' = "if pv_key x < pv_key c then x else c"
  have lt: "py_lt x c = Inr (pv_key x < pv_key c)"
    using Cons.prems by (intro py_lt_uniform) (auto simp: uniform_column_def)
  have "uniform_column (?c' # xs)"
    using Cons.prems by (auto simp: uniform_column_def)
  from Cons.IH[OF this] obtain m where m: "min_from ?c' xs = Inr m" "m \<in> set (?c' # xs)"
     "pv_key m = Min (pv_key ` set (?c' # xs))" by blast
  have "min_from c (x # xs) = Inr m"
    using lt m(1) by simp
  moreover have "m \<in> set (c # x # xs)"
    using m(2) by (auto split: if_splits)
  moreover have "Min (pv_key ` set (?c' # xs)) = Min (pv_key ` set (c # x # xs))"
  proof -
    have k: "pv_key ?c' = min (pv_key x) (pv_key c)"
      by (simp add: min_def)
    show ?thesis
    proof (cases "xs = []")
      case True
      then show ?thesis using k by (simp add: min.commute)
    next
      case False
      then have "Min (pv_key ` set (?c' # xs)) = min (pv_key ?c') (Min (pv_key ` set xs))"
        by simp
      also have "\<dots> = min (pv_key c) (min (pv_key x) (Min (pv_key ` set xs)))"
        unfolding k by (simp add: min.assoc min.commute min.left_commute)
      also have "\<dots> = Min (pv_key ` set (c # x # xs))"
        using False by simp
      finally show ?thesis .
    qed
  qed
  ultimately show ?case using m(3) by auto
qed

lemma max_from_uniform:
  assumes "uniform_column (c # xs)"
  shows "\<exists>m. max_from c xs = Inr m \<and> m \<in> set (c # xs)
             \<and> pv_key m = Max (pv_key ` set (c # xs))"
  using assms
proof (induction xs arbitrary: c)
  case Nil
  show ?case by simp
next
  case (Cons x xs)
  let ?c' = "if pv_key c < pv_key x then x else c"
  have lt: "py_lt c x = Inr (pv_key c < pv_key x)"
    using Cons.prems by (intro py_lt_uniform) (auto simp: uniform_column_def)
  have "uniform_column (?c' # xs)"
    using Cons.prems by (auto simp: uniform_column_def)
  from Cons.IH[OF this] obtain m where m: "max_from ?c' xs = Inr m" "m \<in> set (?c' # xs)"
     "pv_key m = Max (pv_key ` set (?c' # xs))" by blast
  have "max_from c (x # xs) = Inr m"
    using lt m(1) by simp
  moreover have "m \<in> set (c # x # xs)"
    using m(2) by (auto split: if_splits)
  moreover have "Max (pv_key ` set (?c' # xs)) = Max (pv_key ` set (c # x # xs))"
  proof -
    have k: "pv_key ?c' = max (pv_key x) (pv_key c)"
      by (simp add: max_def)
    show ?thesis
    proof (cases "xs = []")
      case True
      then show ?thesis using k by (simp add: max.commute)
    next
      case False
      then have "Max (pv_key ` set (?c' # xs)) = max (pv_key ?c') (Max (pv_key ` set xs))"
        by simp
      also have "\<dots> = max (pv_key c) (max (pv_key x) (Max (pv_key ` set xs)))"
        unfolding k by (simp add: max.assoc max.commute max.left_commute)
      also have "\<dots> = Max (pv_key ` set (c # x # xs))"
        using False by simp
      finally show ?thesis .
    qed
  qed
  ultimately show ?case using m(3) by auto
qed


lemma normalize_utc_datetime:
  "normalize_utc (PyDatetime d) = PyDatetime \<lparr>wall = dt_key d, tzinfo = Some 0\<rparr>"
  by (cases "tzinfo d") (simp_all add: normalize_utc_def to_utc_def dt_key_def)


lemma py_min_uniform:
  assumes "xs \<noteq> []" "uniform_column xs"
  shows "\<exists>m. py_min xs = Inr m \<and> m \<in> set xs \<and> pv_key m = Min (pv_key ` set xs)"
proof -
  obtain c rest where xs: "xs = c # rest" using assms(1) by (cases xs) auto
  from min_from_uniform[of c rest] assms(2) xs show ?thesis
    by (simp add: py_min_def)
qed

lemma py_max_uniform:
  assumes "xs \<noteq> []" "uniform_column xs"
  shows "\<exists>m. py_max xs = Inr m \<and> m \<in> set xs \<and> pv_key m = Max (pv_key ` set xs)"
proof -
  obtain c rest where xs: "xs = c # rest" using assms(1) by (cases xs) auto
  from max_from_uniform[of c rest] assms(2) xs show ?thesis
    by (simp add: py_max_def)
qed










section \<open>The loop of the builder and what follows it\<close>

lemma to_rfc3339_z_Inr:
  "to_rfc3339_z v = Inr s \<longleftrightarrow> is_datetime v \<and> s = rfc_str v"
  by (cases v) (auto simp: to_rfc3339_z_def rfc_str_def Let_def)

lemma to_rfc3339_z_datetime:
  "is_datetime v \<Longrightarrow> to_rfc3339_z v = Inr (rfc_str v)"
  by (simp add: to_rfc3339_z_Inr)

lemma build_items_step:
  assumes "summarize r f = Inr s" "is_datetime (s_start s)" "is_datetime (s_end s)"
  shows "build_items v r ip (f # files) st tr =
    (case validate_item v (the_item ip f s) of
       Some e \<Rightarrow>
         (Inl (Raised (ve_class e)
                 (''Validation failed for STAC item '' @ [CHR 0x27] @ item_id (the_item ip f s)
                  @ [CHR 0x27] @ '': '' @ ve_str e)),
          tr @ [Print (diagnostic
                  (''ERROR: Item validation failed for item ID '' @ item_id (the_item ip f s) @ '': '')
                  e)])
     | None \<Rightarrow>
         build_items v r ip files
           (accumulate st (the_item ip f s) (s_bbox s) (s_start s) (s_end s) (s_rows s)) tr)"
proof -
  obtain rel content where f: "f = (rel, content)" by (cases f)
  obtain bb start end_time n where s: "s = (bb, start, end_time, n)" by (cases s)
  show ?thesis
    using assms unfolding f s
    by (simp add: summarize_def to_rfc3339_z_datetime the_item_def Let_def split: option.split)
qed

lemma build_items_summary_fails:
  assumes "summarize r f = Inl e"
  shows "build_items v r ip (f # files) st tr = (Inl e, tr)"
proof -
  obtain rel content where f: "f = (rel, content)" by (cases f)
  show ?thesis using assms unfolding f by (simp add: summarize_def)
qed

lemma build_items_not_datetime:
  assumes "summarize r f = Inr s" "\<not> (is_datetime (s_start s) \<and> is_datetime (s_end s))"
  shows "build_items v r ip (f # files) st tr =
           (Inl (TypeError ''_to_rfc3339_z expects a datetime instance''), tr)"
proof -
  obtain rel content where f: "f = (rel, content)" by (cases f)
  obtain bb start end_time n where s: "s = (bb, start, end_time, n)" by (cases s)
  show ?thesis
    using assms unfolding f s
    by (cases start; cases end_time) (simp_all add: summarize_def to_rfc3339_z_def Let_def)
qed

lemma build_items_Cons_Inr:
  assumes "build_items v r ip (f # files) st tr = (Inr st', tr')"
  shows "\<exists>s. summarize r f = Inr s \<and> is_datetime (s_start s) \<and> is_datetime (s_end s)
     \<and> validate_item v (the_item ip f s) = None
     \<and> build_items v r ip files
          (accumulate st (the_item ip f s) (s_bbox s) (s_start s) (s_end s) (s_rows s)) tr = (Inr st', tr')"
proof (cases "summarize r f")
  case (Inl e)
  with assms build_items_summary_fails[OF Inl] show ?thesis by simp
next
  case (Inr s)
  show ?thesis
  proof (cases "is_datetime (s_start s) \<and> is_datetime (s_end s)")
    case False
    with assms build_items_not_datetime[OF Inr False] show ?thesis by simp
  next
    case True
    then have d: "is_datetime (s_start s)" "is_datetime (s_end s)" by simp_all
    show ?thesis
      using assms Inr d unfolding build_items_step[OF Inr d]
      by (cases "validate_item v (the_item ip f s)") auto
  qed
qed

lemma build_items_Inr:
  assumes "build_items v r ip files st tr = (Inr st', tr')"
  shows "tr' = tr \<and> (\<exists>sms. map (summarize r) files = map Inr sms
     \<and> st' = run_state ip files sms st
     \<and> (\<forall>s\<in>set sms. is_datetime (s_start s) \<and> is_datetime (s_end s))
     \<and> (\<forall>fs\<in>set (zip files sms). validate_item v (the_item ip (fst fs) (snd fs)) = None))"
  using assms
proof (induction files arbitrary: st)
  case Nil
  then show ?case by simp
next
  case (Cons f files)
  from build_items_Cons_Inr[OF Cons.prems] obtain s where
    s: "summarize r f = Inr s" "is_datetime (s_start s)" "is_datetime (s_end s)"
       "validate_item v (the_item ip f s) = None"
       "build_items v r ip files
          (accumulate st (the_item ip f s) (s_bbox s) (s_start s) (s_end s) (s_rows s)) tr = (Inr st', tr')"
    by blast
  from Cons.IH[OF s(5)] obtain sms where
    t: "tr' = tr" and sms: "map (summarize r) files = map Inr sms"
       "st' = run_state ip files sms
                (accumulate st (the_item ip f s) (s_bbox s) (s_start s) (s_end s) (s_rows s))"
       "\<forall>s\<in>set sms. is_datetime (s_start s) \<and> is_datetime (s_end s)"
       "\<forall>fs\<in>set (zip files sms). validate_item v (the_item ip (fst fs) (snd fs)) = None"
    by blast
  have "map (summarize r) (f # files) = map Inr (s # sms)
     \<and> st' = run_state ip (f # files) (s # sms) st
     \<and> (\<forall>s\<in>set (s # sms). is_datetime (s_start s) \<and> is_datetime (s_end s))
     \<and> (\<forall>fs\<in>set (zip (f # files) (s # sms)). validate_item v (the_item ip (fst fs) (snd fs)) = None)"
    using s(1-4) sms by simp
  with t show ?case by blast
qed

lemma build_items_succeeds:
  assumes "map (summarize r) files = map Inr sms"
    and "\<forall>s\<in>set sms. is_datetime (s_start s) \<and> is_datetime (s_end s)"
    and "\<forall>fs\<in>set (zip files sms). validate_item v (the_item ip (fst fs) (snd fs)) = None"
  shows "build_items v r ip files st tr = (Inr (run_state ip files sms st), tr)"
  using assms
proof (induction files arbitrary: sms st)
  case Nil
  then show ?case by simp
next
  case (Cons f files)
  from Cons.prems(1) obtain s rest where sms: "sms = s # rest" "summarize r f = Inr s"
     "map (summarize r) files = map Inr rest"
    by (cases sms) auto
  have d: "is_datetime (s_start s)" "is_datetime (s_end s)"
    using Cons.prems(2) sms(1) by simp_all
  have ok: "validate_item v (the_item ip f s) = None"
    using Cons.prems(3) sms(1) by simp
  have "build_items v r ip files
          (accumulate st (the_item ip f s) (s_bbox s) (s_start s) (s_end s) (s_rows s)) tr
        = (Inr (run_state ip files rest
             (accumulate st (the_item ip f s) (s_bbox s) (s_start s) (s_end s) (s_rows s))), tr)"
    using Cons.prems(2,3) sms(1) by (intro Cons.IH[OF sms(3)]) simp_all
  then show ?case
    unfolding build_items_step[OF sms(2) d] sms(1) using ok by simp
qed

text \<open>Every effect of the loop is a diagnostic line.\<close>

lemma build_items_effects:
  "build_items v r ip files st tr = (res, tr') \<Longrightarrow>
     tr' = tr \<or> (\<exists>line e. tr' = tr @ [Print line] \<and> res = Inl e)"
proof (induction files arbitrary: st)
  case Nil
  then show ?case by simp
next
  case (Cons f files)
  show ?case
  proof (cases "summarize r f")
    case (Inl e)
    with Cons.prems build_items_summary_fails[OF Inl] show ?thesis by simp
  next
    case (Inr s)
    show ?thesis
    proof (cases "is_datetime (s_start s) \<and> is_datetime (s_end s)")
      case False
      with Cons.prems build_items_not_datetime[OF Inr False] show ?thesis by simp
    next
      case True
      then have d: "is_datetime (s_start s)" "is_datetime (s_end s)" by simp_all
      show ?thesis
      proof (cases "validate_item v (the_item ip f s)")
        case None
        with Cons.prems have "build_items v r ip files
          (accumulate st (the_item ip f s) (s_bbox s) (s_start s) (s_end s) (s_rows s)) tr = (res, tr')"
          unfolding build_items_step[OF Inr d] by simp
        then show ?thesis by (rule Cons.IH)
      next
        case (Some e)
        with Cons.prems show ?thesis
          unfolding build_items_step[OF Inr d] by auto
      qed
    qed
  qed
qed

lemma build_items_append:
  "build_items v r ip (xs @ ys) st tr =
     (case build_items v r ip xs st tr of
        (Inl e, t) \<Rightarrow> (Inl e, t)
      | (Inr st', t) \<Rightarrow> build_items v r ip ys st' t)"
proof (induction xs arbitrary: st)
  case Nil
  show ?case by simp
next
  case (Cons f xs)
  show ?case
  proof (cases "summarize r f")
    case (Inl e)
    show ?thesis
      using build_items_summary_fails[OF Inl, of v ip] by simp
  next
    case (Inr s)
    show ?thesis
    proof (cases "is_datetime (s_start s) \<and> is_datetime (s_end s)")
      case False
      show ?thesis
        using build_items_not_datetime[OF Inr False, of v ip] by simp
    next
      case True
      then have d: "is_datetime (s_start s)" "is_datetime (s_end s)" by simp_all
      show ?thesis
        using build_items_step[OF Inr d, of v ip "xs @ ys" st tr]
          build_items_step[OF Inr d, of v ip xs st tr] Cons.IH
        by (cases "validate_item v (the_item ip f s)") simp_all
    qed
  qed
qed

lemma run_state_fields:
  assumes "length fs = length ss"
  shows "items (run_state ip fs ss st) = items st @ map2 (the_item ip) fs ss"
    and "start_times (run_state ip fs ss st) = start_times st @ map s_start ss"
    and "end_times (run_state ip fs ss st) = end_times st @ map s_end ss"
    and "total_rows (run_state ip fs ss st) = total_rows st + sum_list (map s_rows ss)"
  using assms
  by (induction fs ss arbitrary: st rule: list_induct2) (simp_all add: accumulate_def)

lemma run_state_bbox_Some:
  assumes "length fs = length ss" "overall_bbox st = Some (a, b, c, d)"
  shows "overall_bbox (run_state ip fs ss st) =
     Some (fold min (map (bb_minx \<circ> s_bbox) ss) a, fold min (map (bb_miny \<circ> s_bbox) ss) b,
           fold max (map (bb_maxx \<circ> s_bbox) ss) c, fold max (map (bb_maxy \<circ> s_bbox) ss) d)"
  using assms
proof (induction fs ss arbitrary: st a b c d rule: list_induct2)
  case Nil
  then show ?case by simp
next
  case (Cons f fs s ss)
  obtain b0 b1 b2 b3 where bb: "s_bbox s = (b0, b1, b2, b3)" by (cases "s_bbox s")
  let ?st = "accumulate st (the_item ip f s) (s_bbox s) (s_start s) (s_end s) (s_rows s)"
  have "overall_bbox ?st = Some (min b0 a, min b1 b, max b2 c, max b3 d)"
    using Cons.prems bb
    by (simp add: accumulate_def py_min2_min py_max2_max min.commute max.commute)
  from Cons.IH[OF this] show ?case
    by (simp add: bb)
qed

lemma run_state_bbox_None:
  assumes "length fs = length ss" "overall_bbox st = None" "ss \<noteq> []"
  shows "overall_bbox (run_state ip fs ss st) =
     Some (Min (bb_minx ` s_bbox ` set ss), Min (bb_miny ` s_bbox ` set ss),
           Max (bb_maxx ` s_bbox ` set ss), Max (bb_maxy ` s_bbox ` set ss))"
proof -
  from assms(1,3) obtain f fs' s ss' where c: "fs = f # fs'" "ss = s # ss'" "length fs' = length ss'"
    by (cases fs; cases ss) auto
  obtain b0 b1 b2 b3 where bb: "s_bbox s = (b0, b1, b2, b3)" by (cases "s_bbox s")
  let ?st = "accumulate st (the_item ip f s) (s_bbox s) (s_start s) (s_end s) (s_rows s)"
  have "overall_bbox ?st = Some (b0, b1, b2, b3)"
    using assms(2) bb by (simp add: accumulate_def)
  from run_state_bbox_Some[OF c(3) this, of ip]
  have "overall_bbox (run_state ip fs ss st) =
     Some (fold min (map (bb_minx \<circ> s_bbox) ss') b0, fold min (map (bb_miny \<circ> s_bbox) ss') b1,
           fold max (map (bb_maxx \<circ> s_bbox) ss') b2, fold max (map (bb_maxy \<circ> s_bbox) ss') b3)"
    by (simp add: c)
  moreover have "fold min (map (bb_minx \<circ> s_bbox) ss') b0 = Min (bb_minx ` s_bbox ` set ss)"
    using Min.set_eq_fold[of b0 "map (bb_minx \<circ> s_bbox) ss'"] by (simp add: c bb image_image)
  moreover have "fold min (map (bb_miny \<circ> s_bbox) ss') b1 = Min (bb_miny ` s_bbox ` set ss)"
    using Min.set_eq_fold[of b1 "map (bb_miny \<circ> s_bbox) ss'"] by (simp add: c bb image_image)
  moreover have "fold max (map (bb_maxx \<circ> s_bbox) ss') b2 = Max (bb_maxx ` s_bbox ` set ss)"
    using Max.set_eq_fold[of b2 "map (bb_maxx \<circ> s_bbox) ss'"] by (simp add: c bb image_image)
  moreover have "fold max (map (bb_maxy \<circ> s_bbox) ss') b3 = Max (bb_maxy ` s_bbox ` set ss)"
    using Max.set_eq_fold[of b3 "map (bb_maxy \<circ> s_bbox) ss'"] by (simp add: c bb image_image)
  ultimately show ?thesis by simp
qed

text \<open>A datetime that the summarizer returns is in UTC.\<close>

lemma normalize_utc_form:
  "is_datetime (normalize_utc x) \<Longrightarrow>
     normalize_utc x = PyDatetime \<lparr>wall = pv_key (normalize_utc x), tzinfo = Some 0\<rparr>"
  by (cases x) (simp_all add: normalize_utc_datetime dt_key_def, simp add: normalize_utc_def)

lemma summarize_utc:
  assumes "summarize r f = Inr s"
  shows "is_datetime (s_start s) \<Longrightarrow> s_start s = PyDatetime \<lparr>wall = pv_key (s_start s), tzinfo = Some 0\<rparr>"
    and "is_datetime (s_end s) \<Longrightarrow> s_end s = PyDatetime \<lparr>wall = pv_key (s_end s), tzinfo = Some 0\<rparr>"
proof -
  from assms obtain bb x y n where "s = (bb, normalize_utc x, normalize_utc y, n)"
    by (auto simp: summarize_def bbox_and_times_def Let_def split: file_content.splits if_splits sum.splits)
  then show "is_datetime (s_start s) \<Longrightarrow> s_start s = PyDatetime \<lparr>wall = pv_key (s_start s), tzinfo = Some 0\<rparr>"
    and "is_datetime (s_end s) \<Longrightarrow> s_end s = PyDatetime \<lparr>wall = pv_key (s_end s), tzinfo = Some 0\<rparr>"
    using normalize_utc_form by simp_all
qed

lemma utc_column_min:
  assumes "xs \<noteq> []" "\<forall>x\<in>set xs. x = PyDatetime \<lparr>wall = pv_key x, tzinfo = Some 0\<rparr>"
  shows "py_min xs = Inr (PyDatetime \<lparr>wall = Min (pv_key ` set xs), tzinfo = Some 0\<rparr>)"
    and "py_max xs = Inr (PyDatetime \<lparr>wall = Max (pv_key ` set xs), tzinfo = Some 0\<rparr>)"
proof -
  have aw: "is_aware x" if "x \<in> set xs" for x
  proof -
    from assms(2) that have "x = PyDatetime \<lparr>wall = pv_key x, tzinfo = Some 0\<rparr>" by blast
    then have "is_aware x = is_aware (PyDatetime \<lparr>wall = pv_key x, tzinfo = Some 0\<rparr>)" by simp
    then show ?thesis by simp
  qed
  then have u: "uniform_column xs" by (simp add: uniform_column_def list_all_iff)
  from py_min_uniform[OF assms(1) u] obtain m where m: "py_min xs = Inr m" "m \<in> set xs"
    "pv_key m = Min (pv_key ` set xs)" by blast
  from assms(2) m(2) have "m = PyDatetime \<lparr>wall = pv_key m, tzinfo = Some 0\<rparr>" by blast
  with m(1,3) show "py_min xs = Inr (PyDatetime \<lparr>wall = Min (pv_key ` set xs), tzinfo = Some 0\<rparr>)"
    by simp
  from py_max_uniform[OF assms(1) u] obtain m' where m': "py_max xs = Inr m'" "m' \<in> set xs"
    "pv_key m' = Max (pv_key ` set xs)" by blast
  from assms(2) m'(2) have "m' = PyDatetime \<lparr>wall = pv_key m', tzinfo = Some 0\<rparr>" by blast
  with m'(1,3) show "py_max xs = Inr (PyDatetime \<lparr>wall = Max (pv_key ` set xs), tzinfo = Some 0\<rparr>)"
    by simp
qed

lemma after_loop:
  assumes sms: "map (summarize r) files = map Inr sms" "sms \<noteq> []"
    and dt: "\<forall>s\<in>set sms. is_datetime (s_start s) \<and> is_datetime (s_end s)"
    and loop: "build_items v r ip files init_state tr0 = (Inr (run_state ip files sms init_state), tr0)"
  shows "build_from v r cid ip cp files tr0 =
     (case post_validate v (collection_of r cid ip cp files sms) of
        Some e \<Rightarrow>
          (Inl (Raised (ve_class e)
                  (''Validation failed after saving STAC catalog for ''
                   @ [CHR 0x27] @ cid @ [CHR 0x27] @ '': '' @ ve_str e)),
           (tr0 @ save r (collection_of r cid ip cp files sms))
           @ [Print (diagnostic
                    (''ERROR: Post-save validation failed for collection ''
                     @ [CHR 0x27] @ cid @ [CHR 0x27] @ '': '')
                    e)])
      | None \<Rightarrow> (Inr (collection_of r cid ip cp files sms),
                  tr0 @ save r (collection_of r cid ip cp files sms)))"
proof -
  let ?st = "run_state ip files sms init_state"
  have len: "length files = length sms"
    using sms(1) by (metis length_map)
  have ob: "overall_bbox ?st =
     Some (Min (bb_minx ` s_bbox ` set sms), Min (bb_miny ` s_bbox ` set sms),
           Max (bb_maxx ` s_bbox ` set sms), Max (bb_maxy ` s_bbox ` set sms))"
    by (rule run_state_bbox_None[OF len _ sms(2)]) (simp add: init_state_def)
  have st: "start_times ?st = map s_start sms" "end_times ?st = map s_end sms"
      "total_rows ?st = sum_list (map s_rows sms)" "items ?st = map2 (the_item ip) files sms"
    using run_state_fields[OF len, of ip init_state] by (simp_all add: init_state_def)
  have each: "summarize r (files ! i) = Inr (sms ! i)" if "i < length sms" for i
  proof -
    have "map (summarize r) files ! i = map Inr sms ! i" using sms(1) by simp
    then show ?thesis using that len by simp
  qed
  have utc_s: "\<forall>x\<in>set (map s_start sms). x = PyDatetime \<lparr>wall = pv_key x, tzinfo = Some 0\<rparr>"
  proof
    fix x assume "x \<in> set (map s_start sms)"
    then obtain i where i: "i < length sms" "x = s_start (sms ! i)"
      by (auto simp: in_set_conv_nth)
    with dt have "is_datetime (s_start (sms ! i))" by simp
    from summarize_utc(1)[OF each[OF i(1)] this] i(2)
    show "x = PyDatetime \<lparr>wall = pv_key x, tzinfo = Some 0\<rparr>" by simp
  qed
  have utc_e: "\<forall>x\<in>set (map s_end sms). x = PyDatetime \<lparr>wall = pv_key x, tzinfo = Some 0\<rparr>"
  proof
    fix x assume "x \<in> set (map s_end sms)"
    then obtain i where i: "i < length sms" "x = s_end (sms ! i)"
      by (auto simp: in_set_conv_nth)
    with dt have "is_datetime (s_end (sms ! i))" by simp
    from summarize_utc(2)[OF each[OF i(1)] this] i(2)
    show "x = PyDatetime \<lparr>wall = pv_key x, tzinfo = Some 0\<rparr>" by simp
  qed
  have ne: "map s_start sms \<noteq> []" "map s_end sms \<noteq> []" using sms(2) by simp_all
  have tmin: "py_min (map s_start sms) =
      Inr (PyDatetime \<lparr>wall = Min (pv_key ` s_start ` set sms), tzinfo = Some 0\<rparr>)"
    using utc_column_min(1)[OF ne(1) utc_s] by (simp add: image_image)
  have tmax: "py_max (map s_end sms) =
      Inr (PyDatetime \<lparr>wall = Max (pv_key ` s_end ` set sms), tzinfo = Some 0\<rparr>)"
    using utc_column_min(2)[OF ne(2) utc_e] by (simp add: image_image)
  show ?thesis
    unfolding build_from_def loop
    by (simp add: ob tmin tmax st collection_of_def Let_def split: option.split)
qed

lemma build_from_Inr:
  assumes "build_from v r cid ip cp files tr0 = (Inr c, tr)"
  shows "\<exists>sms. map (summarize r) files = map Inr sms \<and> sms \<noteq> []
     \<and> (\<forall>s\<in>set sms. is_datetime (s_start s) \<and> is_datetime (s_end s))
     \<and> (\<forall>fs\<in>set (zip files sms). validate_item v (the_item ip (fst fs) (snd fs)) = None)
     \<and> c = collection_of r cid ip cp files sms
     \<and> post_validate v c = None
     \<and> tr = tr0 @ save r c"
proof -
  obtain res tr1 where loop: "build_items v r ip files init_state tr0 = (res, tr1)"
    by (cases "build_items v r ip files init_state tr0")
  show ?thesis
  proof (cases res)
    case (Inl e)
    with assms loop show ?thesis by (simp add: build_from_def)
  next
    case (Inr st)
    from build_items_Inr[OF loop[unfolded Inr]] obtain sms where
      t: "tr1 = tr0" and sms: "map (summarize r) files = map Inr sms"
        "st = run_state ip files sms init_state"
        "\<forall>s\<in>set sms. is_datetime (s_start s) \<and> is_datetime (s_end s)"
        "\<forall>fs\<in>set (zip files sms). validate_item v (the_item ip (fst fs) (snd fs)) = None"
      by blast
    have ne: "sms \<noteq> []"
    proof
      assume "sms = []"
      with sms(1,2) have "files = []" "st = init_state" by simp_all
      with assms show False
        by (simp add: build_from_def init_state_def)
    qed
    have loop': "build_items v r ip files init_state tr0 = (Inr (run_state ip files sms init_state), tr0)"
      using loop Inr t sms(2) by simp
    from assms after_loop[OF sms(1) ne sms(3) loop', of cid cp]
    have "c = collection_of r cid ip cp files sms \<and> post_validate v c = None \<and> tr = tr0 @ save r c"
      by (cases "post_validate v (collection_of r cid ip cp files sms)") auto
    with sms(1,3,4) ne show ?thesis by blast
  qed
qed

lemma build_from_succeeds:
  assumes sms: "map (summarize r) files = map Inr sms" "sms \<noteq> []"
    and dt: "\<forall>s\<in>set sms. is_datetime (s_start s) \<and> is_datetime (s_end s)"
    and ok: "\<forall>fs\<in>set (zip files sms). validate_item v (the_item ip (fst fs) (snd fs)) = None"
    and post: "post_validate v (collection_of r cid ip cp files sms) = None"
  shows "build_from v r cid ip cp files tr0 =
     (Inr (collection_of r cid ip cp files sms), tr0 @ save r (collection_of r cid ip cp files sms))"
  using after_loop[OF sms dt build_items_succeeds[OF sms(1) dt ok], of cid cp] post by simp

section \<open>Properties of the catalog builder\<close>

lemma build_items_never_writes:
  assumes "build_items v r ip files st tr = (res, tr')"
  shows "filter is_write tr' = filter is_write tr"
  using build_items_effects[OF assms] by auto

text \<open>
  Claim C5. When the enumeration of \<^verbatim>\<open>assets\<close> yields no Parquet file, the loop ends in
  the initial state with no item, and the builder raises the error
  \<^verbatim>\<open>RuntimeError("No Parquet files found under assets directory")\<close>, the code's
  realisation of the spec's \<^verbatim>\<open>EmptyCatalogError\<close>. The run has created the
  \<^verbatim>\<open>items\<close> directory and installed the storage adapter, and has written no document.
\<close>

theorem no_parquet_files_raises_before_saving:
  "rglob_parquet tree = [] \<Longrightarrow>
     build_items v root_dir (case item_props_file of None \<Rightarrow> [] | Some p \<Rightarrow> p) (sort_key fst (rglob_parquet tree))
         init_state [Mkdir (path_str (root_dir @ [''items''])), SetDefaultStacIO ''PyarrowS3IO'']
       = (Inr init_state, [Mkdir (path_str (root_dir @ [''items''])), SetDefaultStacIO ''PyarrowS3IO''])
   \<and> items init_state = []
   \<and> build_catalog v root_dir collection_id item_props_file collection_props_file tree
       = (Inl (RuntimeError ''No Parquet files found under assets directory''),
          [Mkdir (path_str (root_dir @ [''items''])), SetDefaultStacIO ''PyarrowS3IO''])
   \<and> filter is_write
         (snd (build_catalog v root_dir collection_id item_props_file collection_props_file tree)) = []"
  by (simp add: build_catalog_def build_from_def init_state_def)

theorem no_parquet_files_raises_before_saving_witness:
  "rglob_parquet no_parquet_tree = []
   \<and> build_catalog accept_all [''data''] ''sar'' None None no_parquet_tree
       = (Inl (RuntimeError ''No Parquet files found under assets directory''),
          [Mkdir ''data/items'', SetDefaultStacIO ''PyarrowS3IO''])"
proof -
  have e: "rglob_parquet no_parquet_tree = []"
    by (simp add: rglob_parquet_def no_parquet_tree_def ends_with_def)
  from no_parquet_files_raises_before_saving[OF e, of accept_all "[''data'']" None "''sar''" None] e
  show ?thesis by (simp add: path_str_def)
qed

lemma summarize_empty_file:
  "summarize r (rel, Parquet [] n) =
     Inl (ValueError (''No geometry column in '' @ path_str (r @ ''assets'' # rel)))"
  by (simp add: summarize_def bbox_and_times_def)

text \<open>
  Claim C4. The summarizer raises \<^verbatim>\<open>ValueError("No geometry column in <path>")\<close>, the
  code's realisation of the spec's \<^verbatim>\<open>EmptyFileError\<close>, on every file with no row.
  When the files sorted before such a file pass through the loop, the builder ends with
  that very error, whatever follows the file, having written nothing. In every case a
  tree that holds such a file makes the builder fail without writing a document.
\<close>

theorem empty_file_aborts_build:
  "bbox_and_times parquet_path (Parquet [] n) = Inl (ValueError (''No geometry column in '' @ parquet_path))
   \<and> (\<forall>before after st.
         sort_key fst (rglob_parquet tree) = before @ (rel, Parquet [] n) # after
         \<and> build_items v root_dir (case item_props_file of None \<Rightarrow> [] | Some p \<Rightarrow> p) before init_state
              [Mkdir (path_str (root_dir @ [''items''])), SetDefaultStacIO ''PyarrowS3IO'']
            = (Inr st, [Mkdir (path_str (root_dir @ [''items''])), SetDefaultStacIO ''PyarrowS3IO''])
         \<longrightarrow>
         build_catalog v root_dir collection_id item_props_file collection_props_file tree
           = (Inl (ValueError (''No geometry column in '' @ path_str (root_dir @ ''assets'' # rel))),
              [Mkdir (path_str (root_dir @ [''items''])), SetDefaultStacIO ''PyarrowS3IO'']))
   \<and> ((rel, Parquet [] n) \<in> set (rglob_parquet tree) \<longrightarrow>
         (\<exists>e. fst (build_catalog v root_dir collection_id item_props_file collection_props_file tree) = Inl e)
         \<and> filter is_write
             (snd (build_catalog v root_dir collection_id item_props_file collection_props_file tree)) = [])"
proof -
  let ?ip = "case item_props_file of None \<Rightarrow> [] | Some p \<Rightarrow> p"
  let ?cp = "case collection_props_file of None \<Rightarrow> [] | Some p \<Rightarrow> p"
  let ?tr0 = "[Mkdir (path_str (root_dir @ [''items''])), SetDefaultStacIO ''PyarrowS3IO'']"
  let ?files = "sort_key fst (rglob_parquet tree)"
  let ?err = "ValueError (''No geometry column in '' @ path_str (root_dir @ ''assets'' # rel))"
  have c1: "bbox_and_times parquet_path (Parquet [] n) = Inl (ValueError (''No geometry column in '' @ parquet_path))"
    by (simp add: bbox_and_times_def)
  have c2: "\<forall>before after st.
         ?files = before @ (rel, Parquet [] n) # after
         \<and> build_items v root_dir ?ip before init_state ?tr0 = (Inr st, ?tr0)
         \<longrightarrow> build_catalog v root_dir collection_id item_props_file collection_props_file tree = (Inl ?err, ?tr0)"
  proof (intro allI impI, elim conjE)
    fix before after st
    assume h: "?files = before @ (rel, Parquet [] n) # after"
      "build_items v root_dir ?ip before init_state ?tr0 = (Inr st, ?tr0)"
    have "build_items v root_dir ?ip (before @ (rel, Parquet [] n) # after) init_state ?tr0
        = (case build_items v root_dir ?ip before init_state ?tr0 of
             (Inl e, t) \<Rightarrow> (Inl e, t)
           | (Inr st', t) \<Rightarrow> build_items v root_dir ?ip ((rel, Parquet [] n) # after) st' t)"
      by (rule build_items_append)
    also have "\<dots> = build_items v root_dir ?ip ((rel, Parquet [] n) # after) st ?tr0"
      by (simp only: h(2) prod.case sum.case)
    also have "\<dots> = (Inl ?err, ?tr0)"
      by (rule build_items_summary_fails[OF summarize_empty_file])
    finally have "build_items v root_dir ?ip ?files init_state ?tr0 = (Inl ?err, ?tr0)"
      unfolding h(1) .
    then show "build_catalog v root_dir collection_id item_props_file collection_props_file tree = (Inl ?err, ?tr0)"
      by (simp add: build_catalog_def build_from_def)
  qed
  have c3: "(rel, Parquet [] n) \<in> set (rglob_parquet tree) \<longrightarrow>
         (\<exists>e. fst (build_catalog v root_dir collection_id item_props_file collection_props_file tree) = Inl e)
         \<and> filter is_write
             (snd (build_catalog v root_dir collection_id item_props_file collection_props_file tree)) = []"
  proof
    assume m: "(rel, Parquet [] n) \<in> set (rglob_parquet tree)"
    then have m': "(rel, Parquet [] n) \<in> set ?files" by simp
    obtain res tr1 where loop: "build_items v root_dir ?ip ?files init_state ?tr0 = (res, tr1)"
      by (cases "build_items v root_dir ?ip ?files init_state ?tr0")
    have "\<exists>e. res = Inl e"
    proof (cases res)
      case (Inl e)
      then show ?thesis by blast
    next
      case (Inr st)
      from build_items_Inr[OF loop[unfolded Inr]] obtain sms where
        "map (summarize root_dir) ?files = map Inr sms" by blast
      then have "summarize root_dir (rel, Parquet [] n) \<in> Inr ` set sms"
        using m' by (metis image_eqI list.set_map)
      then show ?thesis by (auto simp: summarize_empty_file)
    qed
    then obtain e where e: "res = Inl e" ..
    have bc: "build_catalog v root_dir collection_id item_props_file collection_props_file tree = (Inl e, tr1)"
      using loop e by (simp add: build_catalog_def build_from_def)
    have "filter is_write tr1 = []"
      using build_items_never_writes[OF loop] by simp
    with bc show "(\<exists>e. fst (build_catalog v root_dir collection_id item_props_file collection_props_file tree) = Inl e)
         \<and> filter is_write
             (snd (build_catalog v root_dir collection_id item_props_file collection_props_file tree)) = []"
      by simp
  qed
  show ?thesis using c1 c2 c3 by (intro conjI)
qed

lemma summarize_a: "summarize r (rel, Parquet rows_a 3) = Inr summary_a"
  by (simp add: summarize_def bbox_and_times_def rows_a_def obs_def wkb_loads_def py_min2_def py_max2_def
        less_pyfloat_def py_min_def py_max_def utc_datetime_def ymd2ord_def normalize_utc_def to_utc_def
        summary_a_def)

lemma summarize_b: "summarize r (rel, Parquet rows_b 5) = Inr summary_b"
  by (simp add: summarize_def bbox_and_times_def rows_b_def obs_def wkb_loads_def py_min2_def py_max2_def
        less_pyfloat_def py_min_def py_max_def utc_datetime_def ymd2ord_def normalize_utc_def to_utc_def
        summary_b_def)

lemma summaries_are_datetimes:
  "is_datetime (s_start summary_a)" "is_datetime (s_end summary_a)"
  "is_datetime (s_start summary_b)" "is_datetime (s_end summary_b)"
  by (simp_all add: summary_a_def summary_b_def)

theorem empty_file_aborts_build_witness:
  "sort_key fst (rglob_parquet tree_with_empty_file)
     = [([''a.parquet''], Parquet rows_a 3)] @ ([''empty.parquet''], Parquet [] 0) # [([''z.parquet''], Parquet rows_b 5)]
   \<and> ([''empty.parquet''], Parquet [] 0) \<in> set (rglob_parquet tree_with_empty_file)
   \<and> build_catalog accept_all [''data''] ''sar'' None None tree_with_empty_file
       = (Inl (ValueError ''No geometry column in data/assets/empty.parquet''),
          [Mkdir ''data/items'', SetDefaultStacIO ''PyarrowS3IO''])"
proof -
  let ?tr0 = "[Mkdir (path_str ([''data''] @ [''items''])), SetDefaultStacIO ''PyarrowS3IO'']"
  have s: "sort_key fst (rglob_parquet tree_with_empty_file)
     = [([''a.parquet''], Parquet rows_a 3)] @ ([''empty.parquet''], Parquet [] 0) # [([''z.parquet''], Parquet rows_b 5)]"
    by (simp add: rglob_parquet_def tree_with_empty_file_def ends_with_def)
  have m: "([''empty.parquet''], Parquet [] 0) \<in> set (rglob_parquet tree_with_empty_file)"
    by (simp add: rglob_parquet_def tree_with_empty_file_def ends_with_def)
  have b: "build_items accept_all [''data''] (case None of None \<Rightarrow> [] | Some p \<Rightarrow> p)
             [([''a.parquet''], Parquet rows_a 3)] init_state ?tr0
           = (Inr (run_state [] [([''a.parquet''], Parquet rows_a 3)] [summary_a] init_state), ?tr0)"
    using build_items_succeeds[of "[''data'']" "[([''a.parquet''], Parquet rows_a 3)]" "[summary_a]"
            accept_all "[]" init_state ?tr0]
    by (simp add: summarize_a summaries_are_datetimes accept_all_def)
  from empty_file_aborts_build[of "''x''" 0 tree_with_empty_file "[''empty.parquet'']" accept_all
         "[''data'']" None "''sar''" None] s b
  have "build_catalog accept_all [''data''] ''sar'' None None tree_with_empty_file
       = (Inl (ValueError (''No geometry column in '' @ path_str ([''data''] @ ''assets'' # [''empty.parquet'']))),
          ?tr0)"
    by blast
  then have "build_catalog accept_all [''data''] ''sar'' None None tree_with_empty_file
       = (Inl (ValueError ''No geometry column in data/assets/empty.parquet''),
          [Mkdir ''data/items'', SetDefaultStacIO ''PyarrowS3IO''])"
    by (simp add: path_str_def)
  with s m show ?thesis by blast
qed

lemma starts_with_append: "starts_with p (p @ s)"
  by (induction p) simp_all

lemma ends_with_append: "ends_with suffix (s @ suffix)"
  by (simp add: ends_with_def starts_with_append)

lemma format_offset_zero: "format_offset 0 = ''+00:00''"
  by code_simp

lemma isoformat_utc:
  "tzinfo dt = Some 0 \<Longrightarrow> isoformat dt = iso_local (wall dt) @ ''+00:00''"
  by (simp add: isoformat_def format_offset_zero)

lemma to_utc_key: "to_utc dt = \<lparr>wall = dt_key dt, tzinfo = Some 0\<rparr>"
  by (cases "tzinfo dt") (simp_all add: to_utc_def dt_key_def)

lemma to_rfc3339_z_closed:
  "to_rfc3339_z (PyDatetime dt) = Inr (iso_local (dt_key dt) @ ''Z'')"
proof -
  have iso: "isoformat (to_utc dt) = iso_local (dt_key dt) @ ''+00:00''"
    by (simp add: to_utc_key isoformat_utc)
  have e: "ends_with ''+00:00'' (iso_local (dt_key dt) @ ''+00:00'')"
    by (rule ends_with_append)
  show ?thesis
    using e by (simp add: to_rfc3339_z_def iso Let_def)
qed

lemma rfc_str_closed: "rfc_str (PyDatetime dt) = iso_local (dt_key dt) @ ''Z''"
  by (simp add: rfc_str_def to_rfc3339_z_closed)

lemma trailing_Z: "ends_with ''Z'' (s @ ''Z'') \<and> \<not> ends_with ''+00:00'' (s @ ''Z'')"
  by (simp add: ends_with_def)

text \<open>The items of the collection in closed form.\<close>

lemma collection_of_items:
  "coll_items (collection_of r cid ip cp files sms) =
     map (\<lambda>fs. (add_item cid (the_item ip (fst fs) (snd fs)))
                  \<lparr>item_self_href := Some (item_href r (add_item cid (the_item ip (fst fs) (snd fs))))\<rparr>)
       (zip files sms)"
  by (simp add: collection_of_def normalize_hrefs_def case_prod_unfold comp_def)

lemma collection_of_item_fields:
  assumes "it \<in> set (coll_items (collection_of r cid ip cp files sms))"
  shows "\<exists>f s. (f, s) \<in> set (zip files sms)
     \<and> item_id it = stem (fst f)
     \<and> item_bbox it = list_of_bbox (s_bbox s)
     \<and> item_datetime it = s_start s
     \<and> item_row_count it = s_rows s
     \<and> item_properties it =
         AList.update ''end_datetime'' (JString (rfc_str (s_end s)))
           (AList.update ''start_datetime'' (JString (rfc_str (s_start s))) ip)"
proof -
  from assms obtain fs where fs: "fs \<in> set (zip files sms)"
    "it = (add_item cid (the_item ip (fst fs) (snd fs)))
                  \<lparr>item_self_href := Some (item_href r (add_item cid (the_item ip (fst fs) (snd fs))))\<rparr>"
    unfolding collection_of_items by auto
  have "(fst fs, snd fs) \<in> set (zip files sms)" using fs(1) by simp
  moreover have "item_id it = stem (fst (fst fs))"
    "item_bbox it = list_of_bbox (s_bbox (snd fs))"
    "item_datetime it = s_start (snd fs)"
    "item_row_count it = s_rows (snd fs)"
    "item_properties it =
         AList.update ''end_datetime'' (JString (rfc_str (s_end (snd fs))))
           (AList.update ''start_datetime'' (JString (rfc_str (s_start (snd fs)))) ip)"
    by (simp_all add: fs(2) add_item_def the_item_def make_item_def)
  ultimately show ?thesis by blast
qed

lemma zip_summaries:
  assumes "map (summarize r) files = map Inr sms" "(f, s) \<in> set (zip files sms)"
  shows "summarize r f = Inr s"
proof -
  from assms(2) obtain i where i: "i < length files" "i < length sms" "files ! i = f" "sms ! i = s"
    by (auto simp: set_zip)
  have "map (summarize r) files ! i = map Inr sms ! i" using assms(1) by simp
  with i show ?thesis by simp
qed

text \<open>
  Claim C6. \<^verbatim>\<open>_to_rfc3339_z\<close> turns every datetime into the date and time of its UTC
  instant followed by the letter \<^verbatim>\<open>Z\<close>. For a datetime with offset zero,
  \<^verbatim>\<open>isoformat\<close> ends in \<^verbatim>\<open>+00:00\<close> and the result replaces that suffix by
  \<^verbatim>\<open>Z\<close>. In every collection the builder returns, each item carries
  \<^verbatim>\<open>start_datetime\<close> and \<^verbatim>\<open>end_datetime\<close> strings that end in \<^verbatim>\<open>Z\<close> and not
  in \<^verbatim>\<open>+00:00\<close>, also when the user's properties name the same keys.
\<close>

theorem utc_serializes_with_trailing_Z:
  "(\<forall>dt. to_rfc3339_z (PyDatetime dt) = Inr (iso_local (dt_key dt) @ ''Z''))
   \<and> (\<forall>dt. tzinfo dt = Some 0 \<longrightarrow>
          isoformat dt = iso_local (wall dt) @ ''+00:00''
          \<and> to_rfc3339_z (PyDatetime dt) = Inr (iso_local (wall dt) @ ''Z''))
   \<and> (\<forall>dt s. to_rfc3339_z (PyDatetime dt) = Inr s \<longrightarrow> ends_with ''Z'' s \<and> \<not> ends_with ''+00:00'' s)
   \<and> (\<forall>c tr. build_catalog v root_dir collection_id item_props_file collection_props_file tree = (Inr c, tr) \<longrightarrow>
         (\<forall>it\<in>set (coll_items c).
            \<exists>d s e. item_datetime it = PyDatetime d \<and> tzinfo d = Some 0
              \<and> map_of (item_properties it) ''start_datetime'' = Some (JString s)
              \<and> s = iso_local (wall d) @ ''Z''
              \<and> map_of (item_properties it) ''end_datetime'' = Some (JString e)
              \<and> ends_with ''Z'' s \<and> \<not> ends_with ''+00:00'' s
              \<and> ends_with ''Z'' e \<and> \<not> ends_with ''+00:00'' e))"
proof -
  have c1: "\<forall>dt. to_rfc3339_z (PyDatetime dt) = Inr (iso_local (dt_key dt) @ ''Z'')"
    by (simp add: to_rfc3339_z_closed)
  have c2: "\<forall>dt. tzinfo dt = Some 0 \<longrightarrow>
          isoformat dt = iso_local (wall dt) @ ''+00:00''
          \<and> to_rfc3339_z (PyDatetime dt) = Inr (iso_local (wall dt) @ ''Z'')"
    by (simp add: to_rfc3339_z_closed isoformat_utc dt_key_def)
  have c3: "\<forall>dt s. to_rfc3339_z (PyDatetime dt) = Inr s \<longrightarrow> ends_with ''Z'' s \<and> \<not> ends_with ''+00:00'' s"
    using trailing_Z by (auto simp: to_rfc3339_z_closed)
  have c4: "\<forall>c tr. build_catalog v root_dir collection_id item_props_file collection_props_file tree = (Inr c, tr) \<longrightarrow>
         (\<forall>it\<in>set (coll_items c).
            \<exists>d s e. item_datetime it = PyDatetime d \<and> tzinfo d = Some 0
              \<and> map_of (item_properties it) ''start_datetime'' = Some (JString s)
              \<and> s = iso_local (wall d) @ ''Z''
              \<and> map_of (item_properties it) ''end_datetime'' = Some (JString e)
              \<and> ends_with ''Z'' s \<and> \<not> ends_with ''+00:00'' s
              \<and> ends_with ''Z'' e \<and> \<not> ends_with ''+00:00'' e)"
  proof (intro allI impI ballI)
    fix c tr it
    assume b: "build_catalog v root_dir collection_id item_props_file collection_props_file tree = (Inr c, tr)"
      and it: "it \<in> set (coll_items c)"
    let ?ip = "case item_props_file of None \<Rightarrow> [] | Some p \<Rightarrow> p"
    let ?files = "sort_key fst (rglob_parquet tree)"
    from build_from_Inr[OF b[unfolded build_catalog_def]] obtain sms where
      sms: "map (summarize root_dir) ?files = map Inr sms"
        "\<forall>s\<in>set sms. is_datetime (s_start s) \<and> is_datetime (s_end s)"
        "c = collection_of root_dir collection_id ?ip
               (case collection_props_file of None \<Rightarrow> [] | Some p \<Rightarrow> p) ?files sms"
      by blast
    from collection_of_item_fields[OF it[unfolded sms(3)]] obtain f s where
      fs: "(f, s) \<in> set (zip ?files sms)" "item_datetime it = s_start s"
        "item_properties it =
         AList.update ''end_datetime'' (JString (rfc_str (s_end s)))
           (AList.update ''start_datetime'' (JString (rfc_str (s_start s))) ?ip)"
      by blast
    have s_in: "s \<in> set sms" using fs(1) by (rule set_zip_rightD)
    then have d: "is_datetime (s_start s)" "is_datetime (s_end s)" using sms(2) by simp_all
    have sm: "summarize root_dir f = Inr s" by (rule zip_summaries[OF sms(1) fs(1)])
    let ?d = "\<lparr>wall = pv_key (s_start s), tzinfo = Some 0\<rparr>"
    let ?e = "\<lparr>wall = pv_key (s_end s), tzinfo = Some 0\<rparr>"
    have st: "s_start s = PyDatetime ?d" by (rule summarize_utc(1)[OF sm d(1)])
    have en: "s_end s = PyDatetime ?e" by (rule summarize_utc(2)[OF sm d(2)])
    have rs: "rfc_str (s_start s) = iso_local (wall ?d) @ ''Z''"
      by (subst st) (simp add: rfc_str_closed dt_key_def)
    have re: "rfc_str (s_end s) = iso_local (wall ?e) @ ''Z''"
      by (subst en) (simp add: rfc_str_closed dt_key_def)
    have p1: "map_of (item_properties it) ''start_datetime'' = Some (JString (rfc_str (s_start s)))"
      by (simp add: fs(3) update_conv')
    have p2: "map_of (item_properties it) ''end_datetime'' = Some (JString (rfc_str (s_end s)))"
      by (simp add: fs(3) update_conv')
    have "item_datetime it = PyDatetime ?d \<and> tzinfo ?d = Some 0
              \<and> map_of (item_properties it) ''start_datetime'' = Some (JString (rfc_str (s_start s)))
              \<and> rfc_str (s_start s) = iso_local (wall ?d) @ ''Z''
              \<and> map_of (item_properties it) ''end_datetime'' = Some (JString (rfc_str (s_end s)))
              \<and> ends_with ''Z'' (rfc_str (s_start s)) \<and> \<not> ends_with ''+00:00'' (rfc_str (s_start s))
              \<and> ends_with ''Z'' (rfc_str (s_end s)) \<and> \<not> ends_with ''+00:00'' (rfc_str (s_end s))"
      using fs(2) st p1 p2 rs re trailing_Z by simp
    then show "\<exists>d s e. item_datetime it = PyDatetime d \<and> tzinfo d = Some 0
              \<and> map_of (item_properties it) ''start_datetime'' = Some (JString s)
              \<and> s = iso_local (wall d) @ ''Z''
              \<and> map_of (item_properties it) ''end_datetime'' = Some (JString e)
              \<and> ends_with ''Z'' s \<and> \<not> ends_with ''+00:00'' s
              \<and> ends_with ''Z'' e \<and> \<not> ends_with ''+00:00'' e"
      by blast
  qed
  show ?thesis using c1 c2 c3 c4 by (intro conjI)
qed

lemma first_failure_None: "(\<forall>r\<in>set rs. r = None) \<Longrightarrow> first_failure rs = None"
  by (induction rs) auto

lemma post_validate_accept_all: "post_validate accept_all c = None"
  by (simp add: post_validate_def accept_all_def first_failure_None)

lemma two_files_sorted:
  "sort_key fst (rglob_parquet two_files) =
     [([''a.parquet''], Parquet rows_a 3), ([''b.parquet''], Parquet rows_b 5)]"
  by (simp add: rglob_parquet_def two_files_def ends_with_def)

lemma two_files_build:
  "build_catalog accept_all [''data''] ''sar'' None None two_files =
     (Inr (collection_of [''data''] ''sar'' [] []
             [([''a.parquet''], Parquet rows_a 3), ([''b.parquet''], Parquet rows_b 5)]
             [summary_a, summary_b]),
      [Mkdir (path_str ([''data''] @ [''items''])), SetDefaultStacIO ''PyarrowS3IO'']
      @ save [''data''] (collection_of [''data''] ''sar'' [] []
             [([''a.parquet''], Parquet rows_a 3), ([''b.parquet''], Parquet rows_b 5)]
             [summary_a, summary_b]))"
proof -
  let ?files = "[([''a.parquet''], Parquet rows_a 3), ([''b.parquet''], Parquet rows_b 5)]"
  have s: "map (summarize [''data'']) ?files = map Inr [summary_a, summary_b]"
    by (simp add: summarize_a summarize_b)
  have ne: "[summary_a, summary_b] \<noteq> []" by simp
  have dt: "\<forall>s\<in>set [summary_a, summary_b]. is_datetime (s_start s) \<and> is_datetime (s_end s)"
    by (simp add: summaries_are_datetimes)
  have ok: "\<forall>fs\<in>set (zip ?files [summary_a, summary_b]).
      validate_item accept_all (the_item [] (fst fs) (snd fs)) = None"
    by (simp add: accept_all_def)
  show ?thesis
    unfolding build_catalog_def two_files_sorted
    using build_from_succeeds[OF s ne dt ok post_validate_accept_all] by simp
qed

lemma example_instants:
  "utc_datetime 2021 1 1 0 0 0 = \<lparr>wall = 63745056000000000, tzinfo = Some 0\<rparr>"
  "utc_datetime 2021 1 1 1 0 0 = \<lparr>wall = 63745059600000000, tzinfo = Some 0\<rparr>"
  "utc_datetime 2021 1 2 0 0 0 = \<lparr>wall = 63745142400000000, tzinfo = Some 0\<rparr>"
  "utc_datetime 2021 1 2 1 0 0 = \<lparr>wall = 63745146000000000, tzinfo = Some 0\<rparr>"
  by code_simp+

lemma example_iso:
  "iso_local 63745056000000000 = ''2021-01-01T00:00:00''"
  "iso_local 63745146000000000 = ''2021-01-02T01:00:00''"
  by code_simp+

theorem utc_serializes_with_trailing_Z_witness:
  "tzinfo (utc_datetime 2021 1 2 1 0 0) = Some 0
   \<and> isoformat (utc_datetime 2021 1 2 1 0 0) = ''2021-01-02T01:00:00+00:00''
   \<and> to_rfc3339_z (PyDatetime (utc_datetime 2021 1 2 1 0 0)) = Inr ''2021-01-02T01:00:00Z''
   \<and> (\<exists>c tr. build_catalog accept_all [''data''] ''sar'' None None two_files = (Inr c, tr)
        \<and> (\<exists>it\<in>set (coll_items c). \<exists>s e.
              map_of (item_properties it) ''start_datetime'' = Some (JString s)
              \<and> map_of (item_properties it) ''end_datetime'' = Some (JString e)
              \<and> ends_with ''Z'' s \<and> \<not> ends_with ''+00:00'' s
              \<and> ends_with ''Z'' e \<and> \<not> ends_with ''+00:00'' e))"
proof -
  note main = utc_serializes_with_trailing_Z[of accept_all "[''data'']" "''sar''" None None two_files]
  have z: "tzinfo (utc_datetime 2021 1 2 1 0 0) = Some 0"
    by (simp add: utc_datetime_def)
  from main z have "isoformat (utc_datetime 2021 1 2 1 0 0) = iso_local (wall (utc_datetime 2021 1 2 1 0 0)) @ ''+00:00''
      \<and> to_rfc3339_z (PyDatetime (utc_datetime 2021 1 2 1 0 0))
          = Inr (iso_local (wall (utc_datetime 2021 1 2 1 0 0)) @ ''Z'')"
    by blast
  then have a: "isoformat (utc_datetime 2021 1 2 1 0 0) = ''2021-01-02T01:00:00+00:00''"
      "to_rfc3339_z (PyDatetime (utc_datetime 2021 1 2 1 0 0)) = Inr ''2021-01-02T01:00:00Z''"
    by (simp_all add: example_instants example_iso)
  let ?c = "collection_of [''data''] ''sar'' [] []
             [([''a.parquet''], Parquet rows_a 3), ([''b.parquet''], Parquet rows_b 5)]
             [summary_a, summary_b]"
  obtain it where it: "it \<in> set (coll_items ?c)"
    by (auto simp: collection_of_items)
  from main two_files_build it
  have "\<exists>d s e. item_datetime it = PyDatetime d \<and> tzinfo d = Some 0
              \<and> map_of (item_properties it) ''start_datetime'' = Some (JString s)
              \<and> s = iso_local (wall d) @ ''Z''
              \<and> map_of (item_properties it) ''end_datetime'' = Some (JString e)
              \<and> ends_with ''Z'' s \<and> \<not> ends_with ''+00:00'' s
              \<and> ends_with ''Z'' e \<and> \<not> ends_with ''+00:00'' e"
    by blast
  with it two_files_build have "\<exists>c tr. build_catalog accept_all [''data''] ''sar'' None None two_files = (Inr c, tr)
        \<and> (\<exists>it\<in>set (coll_items c). \<exists>s e.
              map_of (item_properties it) ''start_datetime'' = Some (JString s)
              \<and> map_of (item_properties it) ''end_datetime'' = Some (JString e)
              \<and> ends_with ''Z'' s \<and> \<not> ends_with ''+00:00'' s
              \<and> ends_with ''Z'' e \<and> \<not> ends_with ''+00:00'' e)"
    by blast
  with z a show ?thesis by blast
qed

lemma collection_of_extents:
  "coll_spatial_extent (collection_of r cid ip cp files sms) =
     [[Min (bb_minx ` s_bbox ` set sms), Min (bb_miny ` s_bbox ` set sms),
       Max (bb_maxx ` s_bbox ` set sms), Max (bb_maxy ` s_bbox ` set sms)]]"
  "coll_temporal_extent (collection_of r cid ip cp files sms) =
     [(PyDatetime \<lparr>wall = Min (pv_key ` s_start ` set sms), tzinfo = Some 0\<rparr>,
       PyDatetime \<lparr>wall = Max (pv_key ` s_end ` set sms), tzinfo = Some 0\<rparr>)]"
  "map table_row_count (coll_tables (collection_of r cid ip cp files sms)) = [sum_list (map s_rows sms)]"
  by (simp_all add: collection_of_def normalize_hrefs_def)

lemma collection_of_item_lists:
  assumes "length files = length sms"
  shows "map item_bbox (coll_items (collection_of r cid ip cp files sms)) = map (list_of_bbox \<circ> s_bbox) sms"
    and "map item_datetime (coll_items (collection_of r cid ip cp files sms)) = map s_start sms"
    and "map item_row_count (coll_items (collection_of r cid ip cp files sms)) = map s_rows sms"
    and "map item_id (coll_items (collection_of r cid ip cp files sms)) = map (stem \<circ> fst) files"
    and "map item_collection (coll_items (collection_of r cid ip cp files sms)) = map (\<lambda>f. Some cid) files"
    and "length (coll_items (collection_of r cid ip cp files sms)) = length sms"
proof -
  have snd_zip: "map (\<lambda>fs. g (snd fs)) (zip files sms) = map g sms" for g :: "summary \<Rightarrow> 'b"
    using assms by (induction files sms rule: list_induct2) simp_all
  have fst_zip: "map (\<lambda>fs. h (fst fs)) (zip files sms) = map h files" for h :: "path \<times> file_content \<Rightarrow> 'c"
    using assms by (induction files sms rule: list_induct2) simp_all
  show "map item_bbox (coll_items (collection_of r cid ip cp files sms)) = map (list_of_bbox \<circ> s_bbox) sms"
    using snd_zip[of "list_of_bbox \<circ> s_bbox"]
    by (simp add: collection_of_items comp_def add_item_def the_item_def make_item_def)
  show "map item_datetime (coll_items (collection_of r cid ip cp files sms)) = map s_start sms"
    using snd_zip[of s_start]
    by (simp add: collection_of_items comp_def add_item_def the_item_def make_item_def)
  show "map item_row_count (coll_items (collection_of r cid ip cp files sms)) = map s_rows sms"
    using snd_zip[of s_rows]
    by (simp add: collection_of_items comp_def add_item_def the_item_def make_item_def)
  show "map item_id (coll_items (collection_of r cid ip cp files sms)) = map (stem \<circ> fst) files"
    using fst_zip[of "stem \<circ> fst"]
    by (simp add: collection_of_items comp_def add_item_def the_item_def make_item_def)
  show "map item_collection (coll_items (collection_of r cid ip cp files sms)) = map (\<lambda>f. Some cid) files"
    using fst_zip[of "\<lambda>f. Some cid"]
    by (simp add: collection_of_items comp_def add_item_def the_item_def make_item_def)
  show "length (coll_items (collection_of r cid ip cp files sms)) = length sms"
    using assms by (simp add: collection_of_items)
qed

lemma list_of_bbox_nth:
  "list_of_bbox bb ! 0 = bb_minx bb" "list_of_bbox bb ! 1 = bb_miny bb"
  "list_of_bbox bb ! 2 = bb_maxx bb" "list_of_bbox bb ! 3 = bb_maxy bb"
  "list_of_bbox bb ! Suc 0 = bb_miny bb"
  by (cases bb; simp add: numeral_2_eq_2 numeral_3_eq_3)+

lemma image_of_map_eq:
  assumes "map f xs = map g ys"
  shows "(\<lambda>x. h (f x)) ` set xs = (\<lambda>y. h (g y)) ` set ys"
proof -
  have "set (map h (map f xs)) = set (map h (map g ys))" using assms by simp
  then show ?thesis by (simp add: image_image)
qed

text \<open>
  Claim C1. Whenever the builder returns a collection, the enumerated files all have
  summaries, there is at least one, the items carry the bounding boxes, starts and row
  counts of the summaries in order, and the collection holds: as spatial extent the least
  lower bounds and greatest upper bounds of the item boxes, as temporal extent the least
  start and the greatest end of the summaries (both in UTC), and as row count of its table
  the sum of the item row counts. For the two files of the end-to-end example the builder
  returns a collection with two linked items, extent \<open>[-10, 40, -8, 42]\<close>, time range
  2021-01-01T00:00Z to 2021-01-02T01:00Z and row count 8.
\<close>

theorem collection_extent_aggregates_items:
  "(\<forall>c tr. build_catalog v root_dir collection_id item_props_file collection_props_file tree = (Inr c, tr) \<longrightarrow>
      (\<exists>sms. map (summarize root_dir) (sort_key fst (rglob_parquet tree)) = map Inr sms
         \<and> sms \<noteq> []
         \<and> length (coll_items c) = length sms
         \<and> map item_bbox (coll_items c) = map (list_of_bbox \<circ> s_bbox) sms
         \<and> map item_datetime (coll_items c) = map s_start sms
         \<and> map item_row_count (coll_items c) = map s_rows sms
         \<and> coll_spatial_extent c =
             [[Min (bb_minx ` s_bbox ` set sms), Min (bb_miny ` s_bbox ` set sms),
               Max (bb_maxx ` s_bbox ` set sms), Max (bb_maxy ` s_bbox ` set sms)]]
         \<and> coll_temporal_extent c =
             [(PyDatetime \<lparr>wall = Min (pv_key ` s_start ` set sms), tzinfo = Some 0\<rparr>,
               PyDatetime \<lparr>wall = Max (pv_key ` s_end ` set sms), tzinfo = Some 0\<rparr>)]
         \<and> map table_row_count (coll_tables c) = [sum_list (map s_rows sms)])
      \<and> coll_items c \<noteq> []
      \<and> coll_spatial_extent c =
          [[Min ((\<lambda>it. item_bbox it ! 0) ` set (coll_items c)),
            Min ((\<lambda>it. item_bbox it ! 1) ` set (coll_items c)),
            Max ((\<lambda>it. item_bbox it ! 2) ` set (coll_items c)),
            Max ((\<lambda>it. item_bbox it ! 3) ` set (coll_items c))]]
      \<and> map fst (coll_temporal_extent c) =
          [PyDatetime \<lparr>wall = Min (pv_key ` item_datetime ` set (coll_items c)), tzinfo = Some 0\<rparr>]
      \<and> map table_row_count (coll_tables c) = [sum_list (map item_row_count (coll_items c))])
   \<and> (\<exists>c tr. build_catalog accept_all [''data''] ''sar'' None None two_files = (Inr c, tr)
         \<and> map item_id (coll_items c) = [''a'', ''b'']
         \<and> map item_collection (coll_items c) = [Some ''sar'', Some ''sar'']
         \<and> map item_bbox (coll_items c) =
              [[Fin (-10), Fin 40, Fin (-9), Fin 41], [Fin (-9), Fin 41, Fin (-8), Fin 42]]
         \<and> map item_row_count (coll_items c) = [3, 5]
         \<and> coll_spatial_extent c = [[Fin (-10), Fin 40, Fin (-8), Fin 42]]
         \<and> coll_temporal_extent c =
              [(PyDatetime (utc_datetime 2021 1 1 0 0 0), PyDatetime (utc_datetime 2021 1 2 1 0 0))]
         \<and> map table_row_count (coll_tables c) = [8])"
proof -
  have general: "(\<exists>sms. map (summarize root_dir) (sort_key fst (rglob_parquet tree)) = map Inr sms
         \<and> sms \<noteq> []
         \<and> length (coll_items c) = length sms
         \<and> map item_bbox (coll_items c) = map (list_of_bbox \<circ> s_bbox) sms
         \<and> map item_datetime (coll_items c) = map s_start sms
         \<and> map item_row_count (coll_items c) = map s_rows sms
         \<and> coll_spatial_extent c =
             [[Min (bb_minx ` s_bbox ` set sms), Min (bb_miny ` s_bbox ` set sms),
               Max (bb_maxx ` s_bbox ` set sms), Max (bb_maxy ` s_bbox ` set sms)]]
         \<and> coll_temporal_extent c =
             [(PyDatetime \<lparr>wall = Min (pv_key ` s_start ` set sms), tzinfo = Some 0\<rparr>,
               PyDatetime \<lparr>wall = Max (pv_key ` s_end ` set sms), tzinfo = Some 0\<rparr>)]
         \<and> map table_row_count (coll_tables c) = [sum_list (map s_rows sms)])
      \<and> coll_items c \<noteq> []
      \<and> coll_spatial_extent c =
          [[Min ((\<lambda>it. item_bbox it ! 0) ` set (coll_items c)),
            Min ((\<lambda>it. item_bbox it ! 1) ` set (coll_items c)),
            Max ((\<lambda>it. item_bbox it ! 2) ` set (coll_items c)),
            Max ((\<lambda>it. item_bbox it ! 3) ` set (coll_items c))]]
      \<and> map fst (coll_temporal_extent c) =
          [PyDatetime \<lparr>wall = Min (pv_key ` item_datetime ` set (coll_items c)), tzinfo = Some 0\<rparr>]
      \<and> map table_row_count (coll_tables c) = [sum_list (map item_row_count (coll_items c))]"
    if b: "build_catalog v root_dir collection_id item_props_file collection_props_file tree = (Inr c, tr)"
    for c tr
  proof -
    let ?ip = "case item_props_file of None \<Rightarrow> [] | Some p \<Rightarrow> p"
    let ?cp = "case collection_props_file of None \<Rightarrow> [] | Some p \<Rightarrow> p"
    let ?files = "sort_key fst (rglob_parquet tree)"
    from build_from_Inr[OF b[unfolded build_catalog_def]] obtain sms where
      sms: "map (summarize root_dir) ?files = map Inr sms" "sms \<noteq> []"
        and c: "c = collection_of root_dir collection_id ?ip ?cp ?files sms"
      by blast
    have len: "length ?files = length sms" using sms(1) by (metis length_map)
    note il = collection_of_item_lists[OF len, of root_dir collection_id ?ip ?cp, folded c]
    note ex = collection_of_extents[of root_dir collection_id ?ip ?cp ?files sms, folded c]
    have ne: "coll_items c \<noteq> []" using il(6) sms(2) by auto
    have i0: "(\<lambda>it. item_bbox it ! 0) ` set (coll_items c) = bb_minx ` s_bbox ` set sms"
      using image_of_map_eq[OF il(1), of "\<lambda>l. l ! 0"] by (simp add: list_of_bbox_nth image_image)
    have i1: "(\<lambda>it. item_bbox it ! 1) ` set (coll_items c) = bb_miny ` s_bbox ` set sms"
      using image_of_map_eq[OF il(1), of "\<lambda>l. l ! 1"] by (simp add: list_of_bbox_nth image_image)
    have i2: "(\<lambda>it. item_bbox it ! 2) ` set (coll_items c) = bb_maxx ` s_bbox ` set sms"
      using image_of_map_eq[OF il(1), of "\<lambda>l. l ! 2"] by (simp add: list_of_bbox_nth image_image)
    have i3: "(\<lambda>it. item_bbox it ! 3) ` set (coll_items c) = bb_maxy ` s_bbox ` set sms"
      using image_of_map_eq[OF il(1), of "\<lambda>l. l ! 3"] by (simp add: list_of_bbox_nth image_image)
    have ts: "pv_key ` item_datetime ` set (coll_items c) = pv_key ` s_start ` set sms"
      using image_of_map_eq[OF il(2), of pv_key] by (simp add: image_image)
    have first: "\<exists>sms. map (summarize root_dir) ?files = map Inr sms
         \<and> sms \<noteq> []
         \<and> length (coll_items c) = length sms
         \<and> map item_bbox (coll_items c) = map (list_of_bbox \<circ> s_bbox) sms
         \<and> map item_datetime (coll_items c) = map s_start sms
         \<and> map item_row_count (coll_items c) = map s_rows sms
         \<and> coll_spatial_extent c =
             [[Min (bb_minx ` s_bbox ` set sms), Min (bb_miny ` s_bbox ` set sms),
               Max (bb_maxx ` s_bbox ` set sms), Max (bb_maxy ` s_bbox ` set sms)]]
         \<and> coll_temporal_extent c =
             [(PyDatetime \<lparr>wall = Min (pv_key ` s_start ` set sms), tzinfo = Some 0\<rparr>,
               PyDatetime \<lparr>wall = Max (pv_key ` s_end ` set sms), tzinfo = Some 0\<rparr>)]
         \<and> map table_row_count (coll_tables c) = [sum_list (map s_rows sms)]"
      by (intro exI[of _ sms] conjI) (fact sms(1) sms(2) il(6) il(1) il(2) il(3) ex(1) ex(2) ex(3))+
    have sp: "coll_spatial_extent c =
          [[Min ((\<lambda>it. item_bbox it ! 0) ` set (coll_items c)),
            Min ((\<lambda>it. item_bbox it ! 1) ` set (coll_items c)),
            Max ((\<lambda>it. item_bbox it ! 2) ` set (coll_items c)),
            Max ((\<lambda>it. item_bbox it ! 3) ` set (coll_items c))]]"
      unfolding i0 i1 i2 i3 by (rule ex(1))
    have tm: "map fst (coll_temporal_extent c) =
          [PyDatetime \<lparr>wall = Min (pv_key ` item_datetime ` set (coll_items c)), tzinfo = Some 0\<rparr>]"
      unfolding ts ex(2) by simp
    have rc: "map table_row_count (coll_tables c) = [sum_list (map item_row_count (coll_items c))]"
      unfolding il(3) by (rule ex(3))
    show ?thesis using first ne sp tm rc by (intro conjI)
  qed
  let ?files = "[([''a.parquet''], Parquet rows_a 3), ([''b.parquet''], Parquet rows_b 5)]"
  let ?c = "collection_of [''data''] ''sar'' [] [] ?files [summary_a, summary_b]"
  have len: "length ?files = length [summary_a, summary_b]" by simp
  have e1: "map item_id (coll_items ?c) = [''a'', ''b'']"
    unfolding collection_of_item_lists(4)[OF len] by (simp add: stem_def path_name_def rfind_def)
  have e2: "map item_collection (coll_items ?c) = [Some ''sar'', Some ''sar'']"
    unfolding collection_of_item_lists(5)[OF len] by simp
  have e3: "map item_bbox (coll_items ?c) =
              [[Fin (-10), Fin 40, Fin (-9), Fin 41], [Fin (-9), Fin 41, Fin (-8), Fin 42]]"
    unfolding collection_of_item_lists(1)[OF len] by (simp add: summary_a_def summary_b_def)
  have e4: "map item_row_count (coll_items ?c) = [3, 5]"
    unfolding collection_of_item_lists(3)[OF len] by (simp add: summary_a_def summary_b_def)
  have e5: "coll_spatial_extent ?c = [[Fin (-10), Fin 40, Fin (-8), Fin 42]]"
    unfolding collection_of_extents by (simp add: summary_a_def summary_b_def min_def max_def)
  have e6: "coll_temporal_extent ?c =
              [(PyDatetime (utc_datetime 2021 1 1 0 0 0), PyDatetime (utc_datetime 2021 1 2 1 0 0))]"
    unfolding collection_of_extents
    by (simp add: summary_a_def summary_b_def example_instants dt_key_def)
  have e7: "map table_row_count (coll_tables ?c) = [8]"
    unfolding collection_of_extents by (simp add: summary_a_def summary_b_def)
  have example: "\<exists>c tr. build_catalog accept_all [''data''] ''sar'' None None two_files = (Inr c, tr)
         \<and> map item_id (coll_items c) = [''a'', ''b'']
         \<and> map item_collection (coll_items c) = [Some ''sar'', Some ''sar'']
         \<and> map item_bbox (coll_items c) =
              [[Fin (-10), Fin 40, Fin (-9), Fin 41], [Fin (-9), Fin 41, Fin (-8), Fin 42]]
         \<and> map item_row_count (coll_items c) = [3, 5]
         \<and> coll_spatial_extent c = [[Fin (-10), Fin 40, Fin (-8), Fin 42]]
         \<and> coll_temporal_extent c =
              [(PyDatetime (utc_datetime 2021 1 1 0 0 0), PyDatetime (utc_datetime 2021 1 2 1 0 0))]
         \<and> map table_row_count (coll_tables c) = [8]"
    by (intro exI conjI) (rule two_files_build e1 e2 e3 e4 e5 e6 e7)+
  show ?thesis
  proof (rule conjI)
    show "\<exists>c tr. build_catalog accept_all [''data''] ''sar'' None None two_files = (Inr c, tr)
         \<and> map item_id (coll_items c) = [''a'', ''b'']
         \<and> map item_collection (coll_items c) = [Some ''sar'', Some ''sar'']
         \<and> map item_bbox (coll_items c) =
              [[Fin (-10), Fin 40, Fin (-9), Fin 41], [Fin (-9), Fin 41, Fin (-8), Fin 42]]
         \<and> map item_row_count (coll_items c) = [3, 5]
         \<and> coll_spatial_extent c = [[Fin (-10), Fin 40, Fin (-8), Fin 42]]
         \<and> coll_temporal_extent c =
              [(PyDatetime (utc_datetime 2021 1 1 0 0 0), PyDatetime (utc_datetime 2021 1 2 1 0 0))]
         \<and> map table_row_count (coll_tables c) = [8]"
      by (rule example)
  qed (intro allI impI, rule general)
qed

theorem collection_extent_aggregates_items_witness:
  "\<exists>c tr. build_catalog accept_all [''data''] ''sar'' None None two_files = (Inr c, tr)
     \<and> coll_items c \<noteq> []
     \<and> coll_spatial_extent c =
          [[Min ((\<lambda>it. item_bbox it ! 0) ` set (coll_items c)),
            Min ((\<lambda>it. item_bbox it ! 1) ` set (coll_items c)),
            Max ((\<lambda>it. item_bbox it ! 2) ` set (coll_items c)),
            Max ((\<lambda>it. item_bbox it ! 3) ` set (coll_items c))]]
     \<and> coll_spatial_extent c = [[Fin (-10), Fin 40, Fin (-8), Fin 42]]
     \<and> map table_row_count (coll_tables c) = [sum_list (map item_row_count (coll_items c))]
     \<and> sum_list (map item_row_count (coll_items c)) = 8"
proof -
  note main = collection_extent_aggregates_items[of accept_all "[''data'']" "''sar''" None None two_files]
  from main[THEN conjunct2] obtain c tr where
    b: "build_catalog accept_all [''data''] ''sar'' None None two_files = (Inr c, tr)"
    and rows: "map item_row_count (coll_items c) = [3, 5]"
    and sp: "coll_spatial_extent c = [[Fin (-10), Fin 40, Fin (-8), Fin 42]]"
    by (elim exE conjE)
  from main[THEN conjunct1, rule_format, OF b]
  have g: "coll_items c \<noteq> []"
    "coll_spatial_extent c =
          [[Min ((\<lambda>it. item_bbox it ! 0) ` set (coll_items c)),
            Min ((\<lambda>it. item_bbox it ! 1) ` set (coll_items c)),
            Max ((\<lambda>it. item_bbox it ! 2) ` set (coll_items c)),
            Max ((\<lambda>it. item_bbox it ! 3) ` set (coll_items c))]]"
    "map table_row_count (coll_tables c) = [sum_list (map item_row_count (coll_items c))]"
    by simp_all
  have s: "sum_list (map item_row_count (coll_items c)) = 8"
    unfolding rows by simp
  show ?thesis
    by (intro exI conjI) (rule b g sp s)+
qed

lemma starts_with_split: "starts_with p s \<Longrightarrow> \<exists>t. s = p @ t"
proof (induction p s rule: starts_with.induct)
  case (1 s)
  then show ?case by simp
next
  case (2 p ps)
  then show ?case by simp
next
  case (3 p ps c cs)
  then show ?case by auto
qed

lemma ends_with_split:
  assumes "ends_with suffix s"
  shows "\<exists>pre. s = pre @ suffix"
proof -
  from assms obtain t where "rev s = rev suffix @ t"
    unfolding ends_with_def by (auto dest: starts_with_split)
  then have "s = rev t @ suffix"
    by (metis rev_append rev_rev_ident)
  then show ?thesis ..
qed

lemma rfind_parquet: "rfind CHR ''.'' (pre @ ''.parquet'') = int (length pre)"
  by (simp add: rfind_def)

lemma stem_parquet:
  assumes "path_name p = pre @ ''.parquet''" "pre \<noteq> []"
  shows "stem p = pre"
  using assms by (simp add: stem_def rfind_parquet Let_def)

lemma stem_injective_on_parquet_names:
  assumes "ends_with ''.parquet'' (path_name p)" "ends_with ''.parquet'' (path_name q)"
    and "path_name p \<noteq> ''.parquet''" "path_name q \<noteq> ''.parquet''"
    and "path_name p \<noteq> path_name q"
  shows "stem p \<noteq> stem q"
proof -
  from ends_with_split[OF assms(1)] obtain a where a: "path_name p = a @ ''.parquet''" ..
  from ends_with_split[OF assms(2)] obtain b where b: "path_name q = b @ ''.parquet''" ..
  have "a \<noteq> []" "b \<noteq> []" using a b assms(3,4) by auto
  then have "stem p = a" "stem q = b"
    using stem_parquet a b by simp_all
  with a b assms(5) show ?thesis by auto
qed

lemma same_name_tree_sorted:
  "sort_key fst (rglob_parquet same_name_tree) =
     [([''2021'', ''x.parquet''], Parquet rows_a 3), ([''2022'', ''x.parquet''], Parquet rows_b 5)]"
  by (simp add: rglob_parquet_def same_name_tree_def ends_with_def)

lemma same_name_tree_build:
  "fst (build_catalog accept_all [''data''] ''sar'' None None same_name_tree) =
     Inr (collection_of [''data''] ''sar'' [] []
             [([''2021'', ''x.parquet''], Parquet rows_a 3), ([''2022'', ''x.parquet''], Parquet rows_b 5)]
             [summary_a, summary_b])"
proof -
  let ?files = "[([''2021'', ''x.parquet''], Parquet rows_a 3), ([''2022'', ''x.parquet''], Parquet rows_b 5)]"
  have s: "map (summarize [''data'']) ?files = map Inr [summary_a, summary_b]"
    by (simp add: summarize_a summarize_b)
  have ne: "[summary_a, summary_b] \<noteq> []" by simp
  have dt: "\<forall>s\<in>set [summary_a, summary_b]. is_datetime (s_start s) \<and> is_datetime (s_end s)"
    by (simp add: summaries_are_datetimes)
  have ok: "\<forall>fs\<in>set (zip ?files [summary_a, summary_b]).
      validate_item accept_all (the_item [] (fst fs) (snd fs)) = None"
    by (simp add: accept_all_def)
  show ?thesis
    unfolding build_catalog_def same_name_tree_sorted
    using build_from_succeeds[OF s ne dt ok post_validate_accept_all] by simp
qed

text \<open>
  Claim C8 as stated fails: two files named \<^verbatim>\<open>x.parquet\<close> in the subdirectories
  \<^verbatim>\<open>2021\<close> and \<^verbatim>\<open>2022\<close> are distinct files, and the builder returns a collection
  whose two items both have the identifier \<^verbatim>\<open>x\<close>.
\<close>

theorem item_ids_collide_across_directories:
  "item_ids (build_catalog accept_all [''data''] ''sar'' None None same_name_tree) = Inr [''x'', ''x'']"
proof -
  let ?files = "[([''2021'', ''x.parquet''], Parquet rows_a 3), ([''2022'', ''x.parquet''], Parquet rows_b 5)]"
  have len: "length ?files = length [summary_a, summary_b]" by simp
  show ?thesis
    unfolding item_ids_def same_name_tree_build
    by (simp add: collection_of_item_lists(4)[OF len] stem_def path_name_def rfind_def)
qed

lemma distinct_map_sort_key:
  "distinct (map g (sort_key f xs)) = distinct (map g xs)"
proof -
  have "mset (map g (sort_key f xs)) = mset (map g xs)" by simp
  then show ?thesis by (rule mset_eq_imp_distinct_iff)
qed

text \<open>
  Claim C8, amended. The identifier of an item is the stem of its file's name, the
  directory left out, and the items come in the sorted order of the paths. Two names
  that end in \<^verbatim>\<open>.parquet\<close>, differ, and are not the bare name \<^verbatim>\<open>.parquet\<close> have
  different stems. So the identifiers of a collection are pairwise distinct whenever the
  discovered files have pairwise distinct names, none of them the bare \<^verbatim>\<open>.parquet\<close>.
\<close>

theorem item_ids_are_file_stems:
  "(\<forall>c tr. build_catalog v root_dir collection_id item_props_file collection_props_file tree = (Inr c, tr) \<longrightarrow>
       map item_id (coll_items c) = map (stem \<circ> fst) (sort_key fst (rglob_parquet tree)))
   \<and> (\<forall>p q. ends_with ''.parquet'' (path_name p) \<and> ends_with ''.parquet'' (path_name q)
         \<and> path_name p \<noteq> ''.parquet'' \<and> path_name q \<noteq> ''.parquet''
         \<and> path_name p \<noteq> path_name q \<longrightarrow> stem p \<noteq> stem q)
   \<and> (\<forall>c tr. build_catalog v root_dir collection_id item_props_file collection_props_file tree = (Inr c, tr)
         \<and> distinct (map (path_name \<circ> fst) (rglob_parquet tree))
         \<and> ''.parquet'' \<notin> set (map (path_name \<circ> fst) (rglob_parquet tree)) \<longrightarrow>
       distinct (map item_id (coll_items c)))"
proof -
  let ?files = "sort_key fst (rglob_parquet tree)"
  have ids: "map item_id (coll_items c) = map (stem \<circ> fst) ?files"
    if b: "build_catalog v root_dir collection_id item_props_file collection_props_file tree = (Inr c, tr)"
    for c tr
  proof -
    from build_from_Inr[OF b[unfolded build_catalog_def]] obtain sms where
      sms: "map (summarize root_dir) ?files = map Inr sms"
        and c: "c = collection_of root_dir collection_id
                (case item_props_file of None \<Rightarrow> [] | Some p \<Rightarrow> p)
                (case collection_props_file of None \<Rightarrow> [] | Some p \<Rightarrow> p) ?files sms"
      by blast
    have len: "length ?files = length sms" using sms by (metis length_map)
    show ?thesis unfolding c by (rule collection_of_item_lists(4)[OF len])
  qed
  have c1: "\<forall>c tr. build_catalog v root_dir collection_id item_props_file collection_props_file tree = (Inr c, tr) \<longrightarrow>
       map item_id (coll_items c) = map (stem \<circ> fst) ?files"
    using ids by blast
  have c2: "\<forall>p q. ends_with ''.parquet'' (path_name p) \<and> ends_with ''.parquet'' (path_name q)
         \<and> path_name p \<noteq> ''.parquet'' \<and> path_name q \<noteq> ''.parquet''
         \<and> path_name p \<noteq> path_name q \<longrightarrow> stem p \<noteq> stem q"
    using stem_injective_on_parquet_names by blast
  have c3: "\<forall>c tr. build_catalog v root_dir collection_id item_props_file collection_props_file tree = (Inr c, tr)
         \<and> distinct (map (path_name \<circ> fst) (rglob_parquet tree))
         \<and> ''.parquet'' \<notin> set (map (path_name \<circ> fst) (rglob_parquet tree)) \<longrightarrow>
       distinct (map item_id (coll_items c))"
  proof (intro allI impI, elim conjE)
    fix c tr
    assume b: "build_catalog v root_dir collection_id item_props_file collection_props_file tree = (Inr c, tr)"
      and d: "distinct (map (path_name \<circ> fst) (rglob_parquet tree))"
      and n: "''.parquet'' \<notin> set (map (path_name \<circ> fst) (rglob_parquet tree))"
    have pq: "ends_with ''.parquet'' (path_name (fst f))" if "f \<in> set (rglob_parquet tree)" for f
      using that by (auto simp: rglob_parquet_def path_name_def)
    have inj: "inj_on (stem \<circ> fst) (set (rglob_parquet tree))"
    proof (rule inj_onI)
      fix f g assume f: "f \<in> set (rglob_parquet tree)" and g: "g \<in> set (rglob_parquet tree)"
        and e: "(stem \<circ> fst) f = (stem \<circ> fst) g"
      have mem: "(path_name \<circ> fst) f \<in> set (map (path_name \<circ> fst) (rglob_parquet tree))"
          "(path_name \<circ> fst) g \<in> set (map (path_name \<circ> fst) (rglob_parquet tree))"
        using f g by (simp_all only: set_map image_eqI)
      have nf: "path_name (fst f) \<noteq> ''.parquet''" "path_name (fst g) \<noteq> ''.parquet''"
        using n mem by (metis comp_apply)+
      have "path_name (fst f) = path_name (fst g)"
        using stem_injective_on_parquet_names[OF pq[OF f] pq[OF g] nf] e by auto
      then have "(path_name \<circ> fst) f = (path_name \<circ> fst) g" by simp
      with d f g show "f = g"
        by (meson distinct_map inj_onD)
    qed
    have "distinct (rglob_parquet tree)" using d by (simp add: distinct_map)
    with inj have "distinct (map (stem \<circ> fst) (rglob_parquet tree))"
      by (simp add: distinct_map)
    then have "distinct (map (stem \<circ> fst) ?files)"
      by (simp only: distinct_map_sort_key)
    then show "distinct (map item_id (coll_items c))"
      unfolding ids[OF b] .
  qed
  show ?thesis using c1 c2 c3 by (intro conjI)
qed

theorem item_ids_are_file_stems_witness:
  "(\<exists>c tr. build_catalog accept_all [''data''] ''sar'' None None two_files = (Inr c, tr)
       \<and> map item_id (coll_items c) = [''a'', ''b''] \<and> distinct (map item_id (coll_items c)))
   \<and> distinct (map (path_name \<circ> fst) (rglob_parquet two_files))
   \<and> ''.parquet'' \<notin> set (map (path_name \<circ> fst) (rglob_parquet two_files))
   \<and> stem [''2021'', ''a.parquet''] \<noteq> stem [''2022'', ''b.parquet'']"
proof -
  note main = item_ids_are_file_stems[of accept_all "[''data'']" "''sar''" None None two_files]
  let ?c = "collection_of [''data''] ''sar'' [] []
             [([''a.parquet''], Parquet rows_a 3), ([''b.parquet''], Parquet rows_b 5)]
             [summary_a, summary_b]"
  have d: "distinct (map (path_name \<circ> fst) (rglob_parquet two_files))"
     "''.parquet'' \<notin> set (map (path_name \<circ> fst) (rglob_parquet two_files))"
    by (simp_all add: rglob_parquet_def two_files_def ends_with_def path_name_def)
  from main[THEN conjunct1, rule_format, OF two_files_build]
  have i: "map item_id (coll_items ?c) = [''a'', ''b'']"
    by (simp add: two_files_sorted stem_def path_name_def rfind_def)
  from main[THEN conjunct2, THEN conjunct2, rule_format, of ?c] two_files_build d
  have dd: "distinct (map item_id (coll_items ?c))" by blast
  from main[THEN conjunct2, THEN conjunct1, rule_format, of "[''2021'', ''a.parquet'']" "[''2022'', ''b.parquet'']"]
  have s: "stem [''2021'', ''a.parquet''] \<noteq> stem [''2022'', ''b.parquet'']"
    by (simp add: ends_with_def path_name_def)
  have "\<exists>c tr. build_catalog accept_all [''data''] ''sar'' None None two_files = (Inr c, tr)
       \<and> map item_id (coll_items c) = [''a'', ''b''] \<and> distinct (map item_id (coll_items c))"
    by (intro exI conjI) (rule two_files_build i dd)+
  with d s show ?thesis by (intro conjI)
qed










end
